theory Spec2Isabelle
  imports Main "HOL-Library.Word"
begin

section \<open>action-deployer: artifact synchronisation\<close>

text \<open>
  A shallow embedding of the Go program of the repository (package \<^verbatim>\<open>main\<close>, with the API
  types of \<^verbatim>\<open>struct.go\<close>): the poller that fetches the newest GitHub Actions artifact of each
  job and copies the files of its zip archive that differ from the files under the job's
  deploy path.

  Strings and byte buffers are \<^typ>\<open>string\<close> (a list of 8-bit characters). Paths follow
  Unix: the separator is \<^verbatim>\<open>/\<close>. The standard library, the two packages \<^verbatim>\<open>regexp\<close> and
  \<^verbatim>\<open>murmur3\<close>, the operating system and the network are not code of the repository: they
  are modelled from their documentation, or they are parameters.
\<close>

type_synonym bytes = string

subsection \<open>Errors\<close>

text \<open>
  Every Go \<^verbatim>\<open>error\<close> value the program can see is a value of this type. \<open>IllegalFilePath\<close> is
  \<^verbatim>\<open>fmt.Errorf("illegal file path: %s", path)\<close> and \<open>NoArtifactFound\<close> is
  \<^verbatim>\<open>fmt.Errorf("no artifact found")\<close>; the others are what the operating system and the
  libraries return.
\<close>

datatype error =
    IllegalFilePath string
  | NoArtifactFound
  | NotExist
  | AlreadyExists
  | CrossDevice
  | IOError string
  | RegexpError string
  | OutsideFragment

subsection \<open>Path functions of \<^verbatim>\<open>path/filepath\<close> and \<^verbatim>\<open>strings\<close>\<close>

text \<open>\<^verbatim>\<open>strings.HasPrefix(s, prefix)\<close>.\<close>

definition HasPrefix :: "string \<Rightarrow> string \<Rightarrow> bool" where
  "HasPrefix s pre = (take (length pre) s = pre)"

text \<open>\<^verbatim>\<open>strings.Split(s, "/")\<close>: the path elements between separators.\<close>

fun split_sep :: "string \<Rightarrow> string list" where
  "split_sep [] = [[]]"
| "split_sep (c # cs) =
     (if c = CHR ''/'' then [] # split_sep cs
      else (case split_sep cs of
              [] \<Rightarrow> [[c]]
            | x # xs \<Rightarrow> (c # x) # xs))"

text \<open>\<^verbatim>\<open>strings.Join(elems, "/")\<close>.\<close>

fun join_sep :: "string list \<Rightarrow> string" where
  "join_sep [] = []"
| "join_sep [e] = e"
| "join_sep (e # es) = e @ CHR ''/'' # join_sep es"

text \<open>
  \<^verbatim>\<open>filepath.Clean\<close>, by the rules of its documentation: empty elements and \<^verbatim>\<open>.\<close> elements go;
  an inner \<^verbatim>\<open>..\<close> goes together with the element before it that is not \<^verbatim>\<open>..\<close>; a \<^verbatim>\<open>..\<close> that
  begins a rooted path goes; a \<^verbatim>\<open>..\<close> that begins a relative path stays. \<open>clean_elems\<close>
  keeps the elements written so far in reverse (the library's output buffer); the test
  \<open>out \<noteq> [] \<and> hd out \<noteq> ''..''\<close> is the library's \<^verbatim>\<open>out.w > dotdot\<close>.
\<close>

fun clean_elems :: "bool \<Rightarrow> string list \<Rightarrow> string list \<Rightarrow> string list" where
  "clean_elems rooted out [] = rev out"
| "clean_elems rooted out (e # es) =
     (if e = [] \<or> e = ''.'' then clean_elems rooted out es
      else if e = ''..'' then
        (case out of
           x # xs \<Rightarrow>
             (if x \<noteq> ''..'' then clean_elems rooted xs es
              else if \<not> rooted then clean_elems rooted (''..'' # out) es
              else clean_elems rooted out es)
         | [] \<Rightarrow>
             (if \<not> rooted then clean_elems rooted [''..''] es
              else clean_elems rooted out es))
      else clean_elems rooted (e # out) es)"

definition Clean :: "string \<Rightarrow> string" where
  "Clean path =
     (if path = [] then ''.''
      else
        let rooted = (hd path = CHR ''/'');
            body = join_sep (clean_elems rooted [] (split_sep path))
        in if rooted then CHR ''/'' # body
           else if body = [] then ''.''
           else body)"

text \<open>\<^verbatim>\<open>filepath.Join(elem...)\<close>: the elements from the first non-empty one, joined and cleaned.\<close>

definition Join :: "string list \<Rightarrow> string" where
  "Join elem =
     (case dropWhile (\<lambda>e. e = []) elem of
        [] \<Rightarrow> []
      | es \<Rightarrow> Clean (join_sep es))"

text \<open>\<^verbatim>\<open>filepath.Dir(path)\<close>: the path up to its last separator, cleaned.\<close>

definition Dir :: "string \<Rightarrow> string" where
  "Dir path = Clean (rev (dropWhile (\<lambda>c. c \<noteq> CHR ''/'') (rev path)))"

subsection \<open>A fragment of the \<^verbatim>\<open>regexp\<close> package\<close>

text \<open>
  \<^verbatim>\<open>regexp.MatchString(pattern, s)\<close> compiles the pattern and reports whether \<open>s\<close> contains
  a match of it. The package is not part of the repository. The program reaches it through
  the environment (field \<open>regexp_MatchString\<close> below), so that every general theorem holds
  for the real package; the definitions here give that field a value on a fragment of the
  RE2 syntax, for the statements about concrete patterns:
  literal characters, \<^verbatim>\<open>.\<close>, \<^verbatim>\<open>^\<close>, \<^verbatim>\<open>$\<close>, \<^verbatim>\<open>|\<close>, groups \<^verbatim>\<open>( )\<close>, the repetitions \<^verbatim>\<open>*\<close> \<^verbatim>\<open>+\<close> \<^verbatim>\<open>?\<close>
  (also their non-greedy forms) and a backslash before a punctuation character, over ASCII
  text. Bracket classes, counted repetition, \<^verbatim>\<open>(?\<close> groups and flags, escapes of
  letters and digits and text outside ASCII are not in the fragment: there the value is
  the error \<open>OutsideFragment\<close>, which stands for no behaviour of the package.
  With the flags of \<^verbatim>\<open>regexp.Compile\<close>, \<^verbatim>\<open>^\<close> is the beginning of the text, \<^verbatim>\<open>$\<close> its end, and
  \<^verbatim>\<open>.\<close> any character but a newline.
\<close>

datatype regex =
    Literal char
  | AnyCharNotNL
  | BeginText
  | EndText
  | EmptyMatch
  | Capture regex
  | Concat regex regex
  | Alternate regex regex
  | Star regex
  | Plus regex
  | Quest regex

text \<open>
  The parser reads the pattern once, left to right, as the package's parser does. A frame
  holds the finished alternatives of a group and, in reverse, the items of the
  concatenation being read; \<open>stack\<close> holds the frames of the enclosing groups. \<open>rep\<close> says
  that the item just read was a repetition operator: a second one is refused.
\<close>

type_synonym frame = "regex list \<times> regex list"

fun mk_concat :: "regex list \<Rightarrow> regex" where
  "mk_concat [] = EmptyMatch"
| "mk_concat [r] = r"
| "mk_concat (r # rs) = Concat r (mk_concat rs)"

fun mk_alternate :: "regex list \<Rightarrow> regex" where
  "mk_alternate [] = EmptyMatch"
| "mk_alternate [r] = r"
| "mk_alternate (r # rs) = Alternate r (mk_alternate rs)"

definition close_frame :: "frame \<Rightarrow> regex" where
  "close_frame fr = mk_alternate (fst fr @ [mk_concat (rev (snd fr))])"

definition isalnum :: "char \<Rightarrow> bool" where
  "isalnum c = (c \<in> set ''0123456789ABCDEFGHIJKLMNOPQRSTUVWXYZabcdefghijklmnopqrstuvwxyz'')"

definition is_ascii :: "char \<Rightarrow> bool" where
  "is_ascii c = ((of_char c :: nat) < 128)"

definition repeat_op :: "char \<Rightarrow> regex \<Rightarrow> regex" where
  "repeat_op c r = (if c = CHR ''*'' then Star r else if c = CHR ''+'' then Plus r else Quest r)"

fun parse :: "frame \<Rightarrow> frame list \<Rightarrow> bool \<Rightarrow> string \<Rightarrow> error + regex" where
  "parse cur stack rep [] =
     (if stack = [] then Inr (close_frame cur)
      else Inl (RegexpError ''missing closing )''))"
| "parse cur stack rep (c # cs) =
     (if c = CHR ''('' then
        (case cs of
           [] \<Rightarrow> parse ([], []) (cur # stack) False cs
         | d # ds \<Rightarrow>
             (if d = CHR ''?'' then Inl OutsideFragment
              else parse ([], []) (cur # stack) False cs))
      else if c = CHR '')'' then
        (case stack of
           [] \<Rightarrow> Inl (RegexpError ''unexpected )'')
         | parent # rest \<Rightarrow>
             parse (fst parent, Capture (close_frame cur) # snd parent) rest False cs)
      else if c = CHR ''|'' then
        parse (fst cur @ [mk_concat (rev (snd cur))], []) stack False cs
      else if c = CHR ''*'' \<or> c = CHR ''+'' \<or> c = CHR ''?'' then
        (if rep then Inl (RegexpError ''invalid nested repetition operator'')
         else
           (case snd cur of
              [] \<Rightarrow> Inl (RegexpError ''missing argument to repetition operator'')
            | x # xs \<Rightarrow>
                (case cs of
                   [] \<Rightarrow> parse (fst cur, repeat_op c x # xs) stack True cs
                 | d # ds \<Rightarrow>
                     (if d = CHR ''?'' then parse (fst cur, repeat_op c x # xs) stack True ds
                      else parse (fst cur, repeat_op c x # xs) stack True cs))))
      else if c = CHR 0x5C then
        (case cs of
           [] \<Rightarrow> Inl (RegexpError ''trailing backslash at end of expression'')
         | d # ds \<Rightarrow>
             (if is_ascii d \<and> \<not> isalnum d then parse (fst cur, Literal d # snd cur) stack False ds
              else Inl OutsideFragment))
      else if c = CHR ''.'' then parse (fst cur, AnyCharNotNL # snd cur) stack False cs
      else if c = CHR ''^'' then parse (fst cur, BeginText # snd cur) stack False cs
      else if c = CHR ''$'' then parse (fst cur, EndText # snd cur) stack False cs
      else if c = CHR ''['' \<or> c = CHR ''{'' \<or> \<not> is_ascii c then Inl OutsideFragment
      else parse (fst cur, Literal c # snd cur) stack False cs)"

text \<open>\<^verbatim>\<open>regexp.Compile(expr)\<close> on the fragment.\<close>

definition Compile :: "string \<Rightarrow> error + regex" where
  "Compile expr = parse ([], []) [] False expr"

text \<open>
  Matching. \<open>ends re s i\<close> lists the positions where a match of \<open>re\<close> that starts at
  position \<open>i\<close> of \<open>s\<close> can end. A repetition is the closure of its body's steps; positions
  never exceed \<open>length s\<close>, so \<open>Suc (length s)\<close> rounds reach them all.
\<close>

fun closure :: "(nat \<Rightarrow> nat list) \<Rightarrow> nat \<Rightarrow> nat list \<Rightarrow> nat list" where
  "closure step 0 xs = xs"
| "closure step (Suc n) xs = closure step n (remdups (xs @ concat (map step xs)))"

primrec ends :: "regex \<Rightarrow> string \<Rightarrow> nat \<Rightarrow> nat list" where
  "ends (Literal c) s i = (if i < length s \<and> s ! i = c then [Suc i] else [])"
| "ends AnyCharNotNL s i = (if i < length s \<and> s ! i \<noteq> CHR 0x0A then [Suc i] else [])"
| "ends BeginText s i = (if i = 0 then [i] else [])"
| "ends EndText s i = (if i = length s then [i] else [])"
| "ends EmptyMatch s i = [i]"
| "ends (Capture r) s i = ends r s i"
| "ends (Concat r1 r2) s i = remdups (concat (map (ends r2 s) (ends r1 s i)))"
| "ends (Alternate r1 r2) s i = remdups (ends r1 s i @ ends r2 s i)"
| "ends (Star r) s i = closure (ends r s) (Suc (length s)) [i]"
| "ends (Plus r) s i = closure (ends r s) (Suc (length s)) (ends r s i)"
| "ends (Quest r) s i = remdups (i # ends r s i)"

text \<open>\<^verbatim>\<open>re.MatchString(s)\<close>: some match starts somewhere in \<open>s\<close> (an unanchored search).\<close>

definition matches_in :: "regex \<Rightarrow> string \<Rightarrow> bool" where
  "matches_in re s = list_ex (\<lambda>i. ends re s i \<noteq> []) [0..<Suc (length s)]"

text \<open>The whole of \<open>s\<close> is one match of \<open>re\<close>: the match starts at 0 and ends at \<open>length s\<close>.\<close>

definition matches_entire :: "regex \<Rightarrow> string \<Rightarrow> bool" where
  "matches_entire re s = (length s \<in> set (ends re s 0))"

definition MatchString :: "string \<Rightarrow> string \<Rightarrow> error + bool" where
  "MatchString pattern s =
     (case Compile pattern of
        Inl err \<Rightarrow> Inl err
      | Inr re \<Rightarrow>
          (if list_all is_ascii s then Inr (matches_in re s) else Inl OutsideFragment))"

subsection \<open>The program's data\<close>

text \<open>
  The structs of \<^verbatim>\<open>main.go\<close> and \<^verbatim>\<open>struct.go\<close>. A \<^verbatim>\<open>time.Time\<close> is the instant it denotes, an
  integer; the zero \<^verbatim>\<open>Time\<close> is 0, and \<^verbatim>\<open>Equal\<close> is equality of instants.
\<close>

type_synonym time = int

record Secret =
  s_Owner :: string
  s_Token :: string

record Job =
  Owner :: string
  Repo :: string
  ArtifactName :: string
  Excludes :: "string list"
  DeployPath :: string

record WorkflowRun =
  wr_ID :: "64 word"
  RepositoryID :: "64 word"
  HeadRepositoryID :: "64 word"
  HeadBranch :: string
  HeadSHA :: string

record Artifact =
  ID :: "64 word"
  NodeID :: string
  Name :: string
  SizeInBytes :: "64 word"
  URL :: string
  ArchiveDownloadURL :: string
  Expired :: bool
  CreatedAt :: time
  UpdatedAt :: time
  ExpiresAt :: time
  WorkflowRun :: WorkflowRun

record Artifacts =
  TotalCount :: "64 word"
  Artifacts :: "Artifact list"

text \<open>
  A \<^verbatim>\<open>*zip.File\<close> as \<open>extractDiff\<close> and \<open>unzipDiff\<close> see it: its name, whether its header
  describes a directory, and the results of opening it, of copying its content into the
  buffer and of closing it.
\<close>

record zip_File =
  f_Name :: string
  f_IsDir :: bool
  f_Open :: "error option"
  f_Read :: "error + bytes"
  f_Close :: "error option"

text \<open>The constants of \<^verbatim>\<open>main.go\<close>.\<close>

definition tempDir :: string where "tempDir = ''tmp''"
definition artifactsDir :: string where "artifactsDir = ''artifacts''"
definition secretFile :: string where "secretFile = ''secret.json''"
definition jobFile :: string where "jobFile = ''job.json''"
definition logFile :: string where "logFile = ''log.json''"

text \<open>The lines the program writes through the standard logger, one constructor per call.\<close>

datatype logline =
    Info_RunningJob string
  | Error_Job string error
  | Info_Extracting string
  | Error_Extract string error
  | Fatal error

subsection \<open>The environment and the state\<close>

text \<open>
  What the program does not decide is a field of the environment, fixed during a run:
  the two libraries (\<open>regexp_MatchString\<close>; \<open>murmur3_Sum128\<close>, the 128-bit MurmurHash3 digest
  of a byte sequence), the random suffix that the \<open>k\<close>-th draw of \<^verbatim>\<open>os.CreateTemp\<close> gets, the
  volume a path lies on, the failures of the operating system (a fault is consulted by the
  operation on that path, \<open>None\<close> is no failure; a write fault says after how many bytes it
  strikes), the answers of the GitHub API, the reading of a zip archive and the JSON codec.
\<close>

record env =
  regexp_MatchString :: "string \<Rightarrow> string \<Rightarrow> error + bool"
  murmur3_Sum128 :: "bytes \<Rightarrow> bytes"
  nextRandom :: "nat \<Rightarrow> string"
  volume :: "string \<Rightarrow> nat"
  open_fault :: "string \<Rightarrow> error option"
  read_fault :: "string \<Rightarrow> error option"
  create_fault :: "string \<Rightarrow> error option"
  write_fault :: "string \<Rightarrow> (nat \<times> error) option"
  close_fault :: "string \<Rightarrow> error option"
  rename_fault :: "string \<Rightarrow> string \<Rightarrow> error option"
  mkdir_fault :: "string \<Rightarrow> error option"
  list_artifacts :: "string \<Rightarrow> string \<Rightarrow> string \<Rightarrow> error + Artifacts"
  http_get :: "string \<Rightarrow> string \<Rightarrow> error + bytes \<times> error option"
  zip_read :: "bytes \<Rightarrow> error + zip_File list"
  decode_secrets :: "bytes \<Rightarrow> error + Secret list"
  decode_jobs :: "bytes \<Rightarrow> error + Job list"
  decode_ledger :: "bytes \<Rightarrow> error + (string \<rightharpoonup> time)"
  encode_ledger :: "(string \<rightharpoonup> time) \<Rightarrow> error + bytes"

text \<open>
  The state: the regular files (path to content) and the directories of the file system, the
  number of random suffixes drawn, the log written so far, and the three global variables
  of the program. The file system is flat, a map from the text of a path to a content:
  links, two names of one file and the tree (a file where a directory is needed) are not
  modelled, and a failure they cause is a fault of the environment.
\<close>

record world =
  files :: "string \<rightharpoonup> bytes"
  dirs :: "string set"
  rand_calls :: nat
  logs :: "logline list"
  secretMap :: "string \<rightharpoonup> string"
  jobs :: "Job list"
  lastUpdate :: "string \<rightharpoonup> time"

definition log_Print :: "logline \<Rightarrow> world \<Rightarrow> world" where
  "log_Print l w = w\<lparr>logs := logs w @ [l]\<rparr>"

text \<open>A function that returns, or ends the process through \<^verbatim>\<open>log.Fatal\<close>.\<close>

datatype exec = Running world | Exited world

definition log_Fatal :: "error \<Rightarrow> world \<Rightarrow> exec" where
  "log_Fatal err w = Exited (log_Print (Fatal err) w)"

subsection \<open>Operating system calls\<close>

text \<open>
  \<^verbatim>\<open>os.Open(name)\<close>: a fault of the path, else \<open>NotExist\<close> for a missing file, else the open
  file. \<open>read_all\<close> is \<^verbatim>\<open>io.Copy\<close> out of the open file.
\<close>

definition os_Open :: "env \<Rightarrow> world \<Rightarrow> string \<Rightarrow> error + string" where
  "os_Open env w name =
     (case open_fault env name of
        Some err \<Rightarrow> Inl err
      | None \<Rightarrow> (case files w name of None \<Rightarrow> Inl NotExist | Some c \<Rightarrow> Inr name))"

definition read_all :: "env \<Rightarrow> world \<Rightarrow> string \<Rightarrow> error + bytes" where
  "read_all env w name =
     (case read_fault env name of
        Some err \<Rightarrow> Inl err
      | None \<Rightarrow> (case files w name of None \<Rightarrow> Inr [] | Some c \<Rightarrow> Inr c))"

text \<open>
  \<^verbatim>\<open>io.Copy(file, src)\<close> into a file just created: \<open>src\<close> is the bytes the source delivers and
  the error it ends with, if any. A write fault leaves the bytes written before it.
\<close>

definition io_Copy :: "env \<Rightarrow> string \<Rightarrow> bytes \<times> error option \<Rightarrow> world \<Rightarrow> error option \<times> world" where
  "io_Copy env name src w =
     (case write_fault env name of
        Some (n, err) \<Rightarrow> (Some err, w\<lparr>files := (files w)(name \<mapsto> take n (fst src))\<rparr>)
      | None \<Rightarrow> (snd src, w\<lparr>files := (files w)(name \<mapsto> fst src)\<rparr>))"

text \<open>
  \<^verbatim>\<open>os.Rename(old, new)\<close>: it fails across volumes and on a fault; else the file moves, replacing
  what was at \<open>new\<close>, in one step.
\<close>

definition os_Rename :: "env \<Rightarrow> string \<Rightarrow> string \<Rightarrow> world \<Rightarrow> error option \<times> world" where
  "os_Rename env old new w =
     (if volume env old \<noteq> volume env new then (Some CrossDevice, w)
      else
        (case rename_fault env old new of
           Some err \<Rightarrow> (Some err, w)
         | None \<Rightarrow>
             (case files w old of
                None \<Rightarrow> (Some NotExist, w)
              | Some c \<Rightarrow> (None, w\<lparr>files := ((files w)(old := None))(new \<mapsto> c)\<rparr>))))"

text \<open>\<^verbatim>\<open>os.MkdirAll(path, 0755)\<close>: the directory and its missing parents, or a failure.\<close>

definition ancestors :: "string \<Rightarrow> string list" where
  "ancestors path =
     (let es = split_sep path
      in filter (\<lambda>d. d \<noteq> []) (map (\<lambda>k. join_sep (take k es)) [1..<Suc (length es)]))"

definition os_MkdirAll :: "env \<Rightarrow> string \<Rightarrow> world \<Rightarrow> error option \<times> world" where
  "os_MkdirAll env path w =
     (case mkdir_fault env path of
        Some err \<Rightarrow> (Some err, w)
      | None \<Rightarrow> (None, w\<lparr>dirs := dirs w \<union> set (ancestors path)\<rparr>))"

text \<open>
  \<^verbatim>\<open>os.CreateTemp(dir, pattern)\<close>: the last \<^verbatim>\<open>*\<close> of the pattern is replaced by a random string
  and the name is put under \<open>dir\<close>; a name that exists is drawn again, up to 10000 times;
  the file is created empty (\<^verbatim>\<open>O_CREATE|O_EXCL\<close>). The patterns of the program hold no
  separator, which \<^verbatim>\<open>os.CreateTemp\<close> would refuse, and its directory \<open>tempDir\<close> is not empty
  and does not end in one.
\<close>

definition prefixAndSuffix :: "string \<Rightarrow> string \<times> string" where
  "prefixAndSuffix pattern =
     (let suf = rev (takeWhile (\<lambda>c. c \<noteq> CHR ''*'') (rev pattern))
      in if length suf = length pattern then (pattern, [])
         else (take (length pattern - Suc (length suf)) pattern, suf))"

fun CreateTemp_loop :: "env \<Rightarrow> string \<Rightarrow> string \<Rightarrow> nat \<Rightarrow> world \<Rightarrow> (error + string) \<times> world" where
  "CreateTemp_loop env pre suf 0 w = (Inl AlreadyExists, w)"
| "CreateTemp_loop env pre suf (Suc n) w =
     (let name = pre @ nextRandom env (rand_calls w) @ suf;
          w1 = w\<lparr>rand_calls := Suc (rand_calls w)\<rparr>
      in if files w name \<noteq> None \<or> name \<in> dirs w then CreateTemp_loop env pre suf n w1
         else
           (case create_fault env name of
              Some err \<Rightarrow> (Inl err, w1)
            | None \<Rightarrow> (Inr name, w1\<lparr>files := (files w1)(name \<mapsto> [])\<rparr>)))"

definition os_CreateTemp :: "env \<Rightarrow> string \<Rightarrow> string \<Rightarrow> world \<Rightarrow> (error + string) \<times> world" where
  "os_CreateTemp env dir pattern w =
     (let ps = prefixAndSuffix pattern
      in CreateTemp_loop env (dir @ ''/'' @ fst ps) (snd ps) 10000 w)"

definition os_WriteFile :: "env \<Rightarrow> string \<Rightarrow> bytes \<Rightarrow> world \<Rightarrow> error option \<times> world" where
  "os_WriteFile env name data w =
     (case create_fault env name of
        Some err \<Rightarrow> (Some err, w)
      | None \<Rightarrow> io_Copy env name (data, None) w)"

subsection \<open>The exclusion matcher\<close>

text \<open>
  \<^verbatim>\<open>pathMatches\<close>: the first pattern \<open>e\<close> for which \<^verbatim>\<open>regexp.MatchString("^"+e+"$", p)\<close> answers
  true decides; the error of the call is dropped (\<^verbatim>\<open>ok, _ :=\<close>), and \<open>ok\<close> is false with it.
\<close>

fun pathMatches :: "env \<Rightarrow> string \<Rightarrow> string list \<Rightarrow> bool" where
  "pathMatches env p [] = False"
| "pathMatches env p (e # excludes) =
     (case regexp_MatchString env (''^'' @ e @ ''$'') p of
        Inr True \<Rightarrow> True
      | _ \<Rightarrow> pathMatches env p excludes)"

subsection \<open>The differential extractor\<close>

text \<open>
  \<^verbatim>\<open>hasDiff\<close>: the digest of the buffer against the digest of the file at \<open>destFile\<close>. Writing
  into a hash never fails. A missing file is a difference; another failure of
  \<^verbatim>\<open>os.Open\<close> or of the read is returned.
\<close>

definition hasDiff :: "env \<Rightarrow> bytes \<Rightarrow> string \<Rightarrow> world \<Rightarrow> error + bool" where
  "hasDiff env b destFile w =
     (let hashb = murmur3_Sum128 env b
      in case os_Open env w destFile of
           Inl err \<Rightarrow> (if err = NotExist then Inr True else Inl err)
         | Inr f \<Rightarrow>
             (case read_all env w f of
                Inl err \<Rightarrow> Inl err
              | Inr data \<Rightarrow> Inr (hashb \<noteq> murmur3_Sum128 env data)))"

text \<open>
  \<^verbatim>\<open>extractDiff\<close>, statement by statement: read the entry into a buffer; join the path and
  check it against the cleaned destination; return when there is no difference; else log,
  make the parent directories (the result of \<^verbatim>\<open>os.MkdirAll\<close> is not looked at), create a
  temporary file in \<open>tempDir\<close>, copy the buffer into it, close it and rename it to the path.
\<close>

definition extractDiff :: "env \<Rightarrow> zip_File \<Rightarrow> string \<Rightarrow> world \<Rightarrow> error option \<times> world" where
  "extractDiff env f dest w =
     (case f_Open f of
        Some err \<Rightarrow> (Some err, w)
      | None \<Rightarrow>
     (case f_Read f of
        Inl err \<Rightarrow> (Some err, w)
      | Inr b \<Rightarrow>
     (case f_Close f of
        Some err \<Rightarrow> (Some err, w)
      | None \<Rightarrow>
     (let path = Join [dest, f_Name f]
      in if \<not> HasPrefix path (Clean dest @ ''/'') then (Some (IllegalFilePath path), w)
         else
     (case hasDiff env b path w of
        Inl err \<Rightarrow> (Some err, w)
      | Inr diff \<Rightarrow>
          if \<not> diff then (None, w)
          else
     (let w1 = log_Print (Info_Extracting (f_Name f)) w;
          w2 = snd (os_MkdirAll env (Dir path) w1)
      in case os_CreateTemp env tempDir ''extract-*'' w2 of
           (Inl err, w3) \<Rightarrow> (Some err, w3)
         | (Inr t, w3) \<Rightarrow>
     (case io_Copy env t (b, None) w3 of
        (Some err, w4) \<Rightarrow> (Some err, w4)
      | (None, w4) \<Rightarrow>
     (case close_fault env t of
        Some err \<Rightarrow> (Some err, w4)
      | None \<Rightarrow> os_Rename env t path w4))))))))"

subsection \<open>The archive synchroniser\<close>

text \<open>
  The loop of \<^verbatim>\<open>unzipDiff\<close> over \<^verbatim>\<open>r.File\<close>. For an entry that is neither a directory nor
  excluded the program starts a goroutine that runs \<open>extractDiff\<close> and logs its error; the
  loop variable is taken per iteration (the meaning of the loop since Go 1.22; the module
  file that names the language version is not among the sources), so each goroutine has
  its own entry. The model runs the goroutines one after the other in archive order, each
  to its end: one schedule of the program. \<^verbatim>\<open>wg.Wait()\<close> is the end of the recursion, and the function then returns
  \<^verbatim>\<open>nil\<close>.
\<close>

definition worker :: "env \<Rightarrow> zip_File \<Rightarrow> string \<Rightarrow> world \<Rightarrow> world" where
  "worker env f dest w =
     (case extractDiff env f dest w of
        (Some err, w') \<Rightarrow> log_Print (Error_Extract (f_Name f) err) w'
      | (None, w') \<Rightarrow> w')"

fun unzipDiff_loop :: "env \<Rightarrow> zip_File list \<Rightarrow> string \<Rightarrow> string list \<Rightarrow> world \<Rightarrow> world" where
  "unzipDiff_loop env [] dest excludes w = w"
| "unzipDiff_loop env (f # fs) dest excludes w =
     (if f_IsDir f then unzipDiff_loop env fs dest excludes w
      else if pathMatches env (f_Name f) excludes then unzipDiff_loop env fs dest excludes w
      else unzipDiff_loop env fs dest excludes (worker env f dest w))"

text \<open>\<^verbatim>\<open>zip.OpenReader(filename)\<close>: the file must exist and be a readable archive.\<close>

definition zip_OpenReader :: "env \<Rightarrow> world \<Rightarrow> string \<Rightarrow> error + zip_File list" where
  "zip_OpenReader env w filename =
     (case os_Open env w filename of
        Inl err \<Rightarrow> Inl err
      | Inr file \<Rightarrow>
          (case read_all env w file of
             Inl err \<Rightarrow> Inl err
           | Inr data \<Rightarrow> zip_read env data))"

definition unzipDiff :: "env \<Rightarrow> string \<Rightarrow> string \<Rightarrow> string list \<Rightarrow> world \<Rightarrow> error option \<times> world" where
  "unzipDiff env filename dest excludes w =
     (case zip_OpenReader env w filename of
        Inl err \<Rightarrow> (Some err, w)
      | Inr r \<Rightarrow> (None, unzipDiff_loop env r dest excludes w))"

subsection \<open>The ledger and the jobs\<close>

text \<open>
  \<^verbatim>\<open>saveJSON(filename, v)\<close> for the ledger: a temporary file in \<open>tempDir\<close>, the encoding written
  into it, the file closed (the result is not looked at) and renamed to \<open>filename\<close>.
\<close>

definition saveJSON :: "env \<Rightarrow> string \<Rightarrow> (string \<rightharpoonup> time) \<Rightarrow> world \<Rightarrow> error option \<times> world" where
  "saveJSON env filename v w =
     (case os_CreateTemp env tempDir ''tmp-*'' w of
        (Inl err, w1) \<Rightarrow> (Some err, w1)
      | (Inr file, w1) \<Rightarrow>
          (case encode_ledger env v of
             Inl err \<Rightarrow> (Some err, w1)
           | Inr data \<Rightarrow>
               (case io_Copy env file (data, None) w1 of
                  (Some err, w2) \<Rightarrow> (Some err, w2)
                | (None, w2) \<Rightarrow> os_Rename env file filename w2)))"

definition markUpdate :: "env \<Rightarrow> string \<Rightarrow> time \<Rightarrow> world \<Rightarrow> exec" where
  "markUpdate env key t w =
     (let w1 = w\<lparr>lastUpdate := (lastUpdate w)(key \<mapsto> t)\<rparr>
      in case saveJSON env logFile (lastUpdate w1) w1 of
           (Some err, w2) \<Rightarrow> log_Fatal err w2
         | (None, w2) \<Rightarrow> Running w2)"

text \<open>Reading a Go map at a key it does not hold gives the zero value.\<close>

definition token_of :: "world \<Rightarrow> string \<Rightarrow> string" where
  "token_of w owner = (case secretMap w owner of None \<Rightarrow> [] | Some t \<Rightarrow> t)"

definition ledger_at :: "world \<Rightarrow> string \<Rightarrow> time" where
  "ledger_at w key = (case lastUpdate w key of None \<Rightarrow> 0 | Some t \<Rightarrow> t)"

text \<open>
  \<^verbatim>\<open>getLatestArtifact\<close>: the request and the decoding of its answer are one call of the
  environment; the artifacts are sorted by \<open>CreatedAt\<close>, newest first, and the first one
  with the job's artifact name is returned. (\<^verbatim>\<open>slices.SortFunc\<close> does not say in which order it
  leaves artifacts of equal time; the model keeps their order.)
\<close>

definition getLatestArtifact :: "env \<Rightarrow> Job \<Rightarrow> world \<Rightarrow> error + Artifact" where
  "getLatestArtifact env j w =
     (case list_artifacts env (Owner j) (Repo j) (token_of w (Owner j)) of
        Inl err \<Rightarrow> Inl err
      | Inr as \<Rightarrow>
          (case find (\<lambda>a. Name a = ArtifactName j) (sort_key (\<lambda>a. - CreatedAt a) (Artifacts as)) of
             Some a \<Rightarrow> Inr a
           | None \<Rightarrow> Inl NoArtifactFound))"

text \<open>
  \<^verbatim>\<open>downloadArtifact\<close>: the request, a temporary file in \<open>tempDir\<close>, the body copied into it,
  and the rename to \<^verbatim>\<open>artifacts/<filename>.zip\<close>.
\<close>

definition downloadArtifact :: "env \<Rightarrow> string \<Rightarrow> Artifact \<Rightarrow> string \<Rightarrow> world \<Rightarrow> error option \<times> world" where
  "downloadArtifact env owner a filename w =
     (case http_get env (ArchiveDownloadURL a) (token_of w owner) of
        Inl err \<Rightarrow> (Some err, w)
      | Inr body \<Rightarrow>
          (case os_CreateTemp env tempDir ''artifact-tmp-*'' w of
             (Inl err, w1) \<Rightarrow> (Some err, w1)
           | (Inr file, w1) \<Rightarrow>
               (case io_Copy env file body w1 of
                  (Some err, w2) \<Rightarrow> (Some err, w2)
                | (None, w2) \<Rightarrow> os_Rename env file (Join [artifactsDir, filename @ ''.zip'']) w2)))"

definition job_key :: "Job \<Rightarrow> string" where
  "job_key j = Owner j @ ''.'' @ Repo j @ ''.'' @ ArtifactName j"

definition runJob :: "env \<Rightarrow> Job \<Rightarrow> world \<Rightarrow> exec" where
  "runJob env j w =
     (let key = job_key j;
          w0 = log_Print (Info_RunningJob key) w
      in case getLatestArtifact env j w0 of
           Inl err \<Rightarrow> Running (log_Print (Error_Job key err) w0)
         | Inr artifact \<Rightarrow>
             if CreatedAt artifact = ledger_at w0 key then Running w0
             else
               (case markUpdate env key (CreatedAt artifact) w0 of
                  Exited w1 \<Rightarrow> Exited w1
                | Running w1 \<Rightarrow>
                    (case downloadArtifact env (Owner j) artifact key w1 of
                       (Some err, w2) \<Rightarrow> Running (log_Print (Error_Job key err) w2)
                     | (None, w2) \<Rightarrow>
                         (case unzipDiff env (Join [artifactsDir, key @ ''.zip''])
                                 (DeployPath j) (Excludes j) w2 of
                            (Some err, w3) \<Rightarrow> Running (log_Print (Error_Job key err) w3)
                          | (None, w3) \<Rightarrow> Running w3))))"

text \<open>\<^verbatim>\<open>runJobs\<close>: the jobs in order; a job that ends the process ends the loop.\<close>

fun runJobs_loop :: "env \<Rightarrow> Job list \<Rightarrow> world \<Rightarrow> exec" where
  "runJobs_loop env [] w = Running w"
| "runJobs_loop env (j # js) w =
     (case runJob env j w of
        Exited w' \<Rightarrow> Exited w'
      | Running w' \<Rightarrow> runJobs_loop env js w')"

definition runJobs :: "env \<Rightarrow> world \<Rightarrow> exec" where
  "runJobs env w = runJobs_loop env (jobs w) w"

subsection \<open>Start-up\<close>

text \<open>\<^verbatim>\<open>loadJSON(filename, v)\<close>, with the decoder for the type of \<open>v\<close>.\<close>

definition loadJSON :: "env \<Rightarrow> world \<Rightarrow> string \<Rightarrow> (bytes \<Rightarrow> error + 'a) \<Rightarrow> error + 'a" where
  "loadJSON env w filename decode =
     (case os_Open env w filename of
        Inl err \<Rightarrow> Inl err
      | Inr file \<Rightarrow>
          (case read_all env w file of
             Inl err \<Rightarrow> Inl err
           | Inr data \<Rightarrow> decode data))"

text \<open>
  \<^verbatim>\<open>init()\<close>: the secrets, the jobs, the ledger (a missing \<open>logFile\<close> is first written as the
  empty object) and the two directories; every failure is fatal.
\<close>

definition init :: "env \<Rightarrow> world \<Rightarrow> exec" where
  "init env w =
     (case loadJSON env w secretFile (decode_secrets env) of
        Inl err \<Rightarrow> log_Fatal err w
      | Inr secrets \<Rightarrow>
     (let w1 = w\<lparr>secretMap := fold (\<lambda>s m. m(s_Owner s \<mapsto> s_Token s)) secrets Map.empty\<rparr>
      in case loadJSON env w1 jobFile (decode_jobs env) of
           Inl err \<Rightarrow> log_Fatal err w1
         | Inr js \<Rightarrow>
     (let w2 = w1\<lparr>jobs := js, lastUpdate := Map.empty\<rparr>
      in case (if files w2 logFile = None then os_WriteFile env logFile ''{}'' w2
               else (None, w2)) of
           (Some err, w3) \<Rightarrow> log_Fatal err w3
         | (None, w3) \<Rightarrow>
     (case loadJSON env w3 logFile (decode_ledger env) of
        Inl err \<Rightarrow> log_Fatal err w3
      | Inr m \<Rightarrow>
     (let w4 = w3\<lparr>lastUpdate := lastUpdate w3 ++ m\<rparr>
      in case os_MkdirAll env tempDir w4 of
           (Some err, w5) \<Rightarrow> log_Fatal err w5
         | (None, w5) \<Rightarrow>
     (case os_MkdirAll env artifactsDir w5 of
        (Some err, w6) \<Rightarrow> log_Fatal err w6
      | (None, w6) \<Rightarrow> Running w6))))))"

subsection \<open>The states a write passes through\<close>

text \<open>
  \<open>extractDiff_trace\<close> lists the states of the world after each step of \<open>extractDiff\<close> that
  changes it, in order: the log line, \<^verbatim>\<open>os.MkdirAll\<close>, \<^verbatim>\<open>os.CreateTemp\<close>, the copy into the
  temporary file byte by byte (the finest grain at which \<^verbatim>\<open>io.Copy\<close> can be cut short), and
  \<^verbatim>\<open>os.Rename\<close>. A process that ends during the call leaves one of these states, or the
  state the call started in.
\<close>

definition copy_states :: "env \<Rightarrow> string \<Rightarrow> bytes \<Rightarrow> world \<Rightarrow> world list" where
  "copy_states env t b w =
     (let n = (case write_fault env t of Some (m, err) \<Rightarrow> min m (length b) | None \<Rightarrow> length b)
      in map (\<lambda>k. w\<lparr>files := (files w)(t \<mapsto> take k b)\<rparr>) [0..<n]
         @ [snd (io_Copy env t (b, None) w)])"

definition extractDiff_trace :: "env \<Rightarrow> zip_File \<Rightarrow> string \<Rightarrow> world \<Rightarrow> world list" where
  "extractDiff_trace env f dest w =
     (case f_Open f of
        Some err \<Rightarrow> []
      | None \<Rightarrow>
     (case f_Read f of
        Inl err \<Rightarrow> []
      | Inr b \<Rightarrow>
     (case f_Close f of
        Some err \<Rightarrow> []
      | None \<Rightarrow>
     (let path = Join [dest, f_Name f]
      in if \<not> HasPrefix path (Clean dest @ ''/'') then []
         else
     (case hasDiff env b path w of
        Inl err \<Rightarrow> []
      | Inr diff \<Rightarrow>
          if \<not> diff then []
          else
     (let w1 = log_Print (Info_Extracting (f_Name f)) w;
          w2 = snd (os_MkdirAll env (Dir path) w1)
      in case os_CreateTemp env tempDir ''extract-*'' w2 of
           (Inl err, w3) \<Rightarrow> [w1, w2, w3]
         | (Inr t, w3) \<Rightarrow>
     (case io_Copy env t (b, None) w3 of
        (Some err, w4) \<Rightarrow> [w1, w2, w3] @ copy_states env t b w3
      | (None, w4) \<Rightarrow>
     (case close_fault env t of
        Some err \<Rightarrow> [w1, w2, w3] @ copy_states env t b w3
      | None \<Rightarrow>
          [w1, w2, w3] @ copy_states env t b w3 @ [snd (os_Rename env t path w4)]))))))))"

subsection \<open>Notions of the specification\<close>

text \<open>
  The entries the synchroniser hands to the extractor according to the specification:
  those that are no directory and that the exclusion matcher does not match.
\<close>

definition selected :: "env \<Rightarrow> string list \<Rightarrow> zip_File list \<Rightarrow> zip_File list" where
  "selected env excludes fs =
     filter (\<lambda>f. \<not> f_IsDir f \<and> \<not> pathMatches env (f_Name f) excludes) fs"

text \<open>The entry can be read: opening, copying and closing it give no error.\<close>

definition readable :: "zip_File \<Rightarrow> bool" where
  "readable f = (f_Open f = None \<and> \<not> isl (f_Read f) \<and> f_Close f = None)"

definition content :: "zip_File \<Rightarrow> bytes" where
  "content f = (case f_Read f of Inl err \<Rightarrow> [] | Inr b \<Rightarrow> b)"

text \<open>The number of extraction errors in the log.\<close>

fun is_Error_Extract :: "logline \<Rightarrow> bool" where
  "is_Error_Extract (Error_Extract n err) = True"
| "is_Error_Extract l = False"

definition extract_errors :: "world \<Rightarrow> nat" where
  "extract_errors w = length (filter is_Error_Extract (logs w))"

text \<open>
  The pattern \<open>e\<close> matches the whole of the path \<open>p\<close>, in the fragment: what an exclusion
  pattern means according to the specification.
\<close>

definition excludes_entire :: "string \<Rightarrow> string \<Rightarrow> bool" where
  "excludes_entire e p =
     (case Compile e of Inl err \<Rightarrow> False | Inr re \<Rightarrow> matches_entire re p)"

subsection \<open>A sample environment and sample inputs\<close>

text \<open>
  An environment in which nothing fails: the regular expressions of the fragment, the
  identity in place of the digest (the theorems hold for every digest), one volume, the
  \<open>k\<close>-th random suffix \<open>k + 1\<close> sevens, no network, archives without entries.
\<close>

definition env_plain :: env where
  "env_plain =
     \<lparr> regexp_MatchString = MatchString,
       murmur3_Sum128 = (\<lambda>b. b),
       nextRandom = (\<lambda>k. replicate (Suc k) CHR ''7''),
       volume = (\<lambda>p. 0),
       open_fault = (\<lambda>p. None),
       read_fault = (\<lambda>p. None),
       create_fault = (\<lambda>p. None),
       write_fault = (\<lambda>p. None),
       close_fault = (\<lambda>p. None),
       rename_fault = (\<lambda>p q. None),
       mkdir_fault = (\<lambda>p. None),
       list_artifacts = (\<lambda>owner repo token. Inl (IOError ''offline'')),
       http_get = (\<lambda>url token. Inl (IOError ''offline'')),
       zip_read = (\<lambda>b. Inr []),
       decode_secrets = (\<lambda>b. Inr []),
       decode_jobs = (\<lambda>b. Inr []),
       decode_ledger = (\<lambda>b. Inr Map.empty),
       encode_ledger = (\<lambda>m. Inr ''{}'') \<rparr>"

definition world_empty :: world where
  "world_empty =
     \<lparr> files = Map.empty, dirs = {}, rand_calls = 0, logs = [],
       secretMap = Map.empty, jobs = [], lastUpdate = Map.empty \<rparr>"

definition file_entry :: "string \<Rightarrow> bytes \<Rightarrow> zip_File" where
  "file_entry n c = \<lparr> f_Name = n, f_IsDir = False, f_Open = None, f_Read = Inr c, f_Close = None \<rparr>"

definition dir_entry :: "string \<Rightarrow> zip_File" where
  "dir_entry n = \<lparr> f_Name = n, f_IsDir = True, f_Open = None, f_Read = Inr [], f_Close = None \<rparr>"

definition broken_entry :: "string \<Rightarrow> zip_File" where
  "broken_entry n =
     \<lparr> f_Name = n, f_IsDir = False, f_Open = None, f_Read = Inl (IOError ''checksum''),
       f_Close = None \<rparr>"

definition sample_job :: Job where
  "sample_job =
     \<lparr> Owner = ''o'', Repo = ''r'', ArtifactName = ''dist'', Excludes = [], DeployPath = ''/srv'' \<rparr>"

definition sample_artifact :: "time \<Rightarrow> Artifact" where
  "sample_artifact t =
     \<lparr> ID = 1, NodeID = ''n'', Name = ''dist'', SizeInBytes = 1, URL = ''u'',
       ArchiveDownloadURL = ''z'', Expired = False, CreatedAt = t, UpdatedAt = t,
       ExpiresAt = t,
       WorkflowRun = \<lparr> wr_ID = 1, RepositoryID = 1, HeadRepositoryID = 1,
                       HeadBranch = ''main'', HeadSHA = ''0'' \<rparr> \<rparr>"

text \<open>Variations of the sample environment and world.\<close>

definition env_zip :: "zip_File list \<Rightarrow> env" where
  "env_zip fs = env_plain\<lparr>zip_read := (\<lambda>b. Inr fs)\<rparr>"

definition world_zip :: world where
  "world_zip = world_empty\<lparr>files := [''artifacts/o.r.dist.zip'' \<mapsto> ''PK'']\<rparr>"

text \<open>
  An archive with a directory, two entries under \<^verbatim>\<open>b/\<close>, one of which cannot be read, and two
  further files; and a state in which a file is already deployed under \<^verbatim>\<open>b/\<close>.
\<close>

definition archive_mixed :: "zip_File list" where
  "archive_mixed =
     [dir_entry ''b/'', file_entry ''b/c.txt'' ''Y'', file_entry ''a.txt'' ''X'',
      broken_entry ''b/bad'', file_entry ''d/e.txt'' ''Z'']"

definition world_zip_old :: world where
  "world_zip_old =
     world_empty\<lparr>files := [''artifacts/o.r.dist.zip'' \<mapsto> ''PK'', ''/srv/b/c.txt'' \<mapsto> ''old'']\<rparr>"

definition archive_with_broken :: "zip_File list" where
  "archive_with_broken = [file_entry ''a.txt'' ''X'', broken_entry ''bad'', file_entry ''c.txt'' ''Z'']"

definition env_listing :: "env \<Rightarrow> time \<Rightarrow> env" where
  "env_listing env t =
     env\<lparr>list_artifacts :=
           (\<lambda>owner repo token. Inr \<lparr>TotalCount = 1, Artifacts = [sample_artifact t]\<rparr>)\<rparr>"

definition env_encode_fails :: env where
  "env_encode_fails = env_plain\<lparr>encode_ledger := (\<lambda>m. Inl (IOError ''encode''))\<rparr>"

definition world_ledger :: world where
  "world_ledger = world_empty\<lparr>files := [secretFile \<mapsto> ''[]'', jobFile \<mapsto> ''[]'', logFile \<mapsto> ''{''] \<rparr>"

definition env_decode_fails :: env where
  "env_decode_fails = env_plain\<lparr>decode_ledger := (\<lambda>b. Inl (IOError ''unexpected end of JSON input''))\<rparr>"

definition world_deployed :: world where
  "world_deployed = world_empty\<lparr>files := [''/srv/a.txt'' \<mapsto> ''X'']\<rparr>"

text \<open>The state a function ended in, and whether it returned.\<close>

definition state_of :: "exec \<Rightarrow> world" where
  "state_of x = (case x of Running w \<Rightarrow> w | Exited w \<Rightarrow> w)"

fun is_Running :: "exec \<Rightarrow> bool" where
  "is_Running (Running w) = True"
| "is_Running (Exited w) = False"

definition env_two_volumes :: env where
  "env_two_volumes = env_plain\<lparr>volume := (\<lambda>p. if HasPrefix p ''tmp/'' then 0 else 1)\<rparr>"

definition env_zip_two_volumes :: "zip_File list \<Rightarrow> env" where
  "env_zip_two_volumes fs =
     (env_zip fs)\<lparr>volume := (\<lambda>p. if HasPrefix p ''tmp/'' then 0 else 1)\<rparr>"

definition scenario_archive :: "zip_File list" where
  "scenario_archive = [file_entry ''a.txt'' ''X'', dir_entry ''b/'', file_entry ''b/c.txt'' ''Y'']"

definition archive_duplicate :: "zip_File list" where
  "archive_duplicate = [file_entry ''a.txt'' ''X'', file_entry ''a.txt'' ''Y'']"

section \<open>Properties of the parts\<close>

subsection \<open>Basic facts\<close>

lemma logs_log_Print [simp]: "logs (log_Print l w) = logs w @ [l]"
  by (simp add: log_Print_def)

lemma files_log_Print [simp]: "files (log_Print l w) = files w"
  by (simp add: log_Print_def)

lemma dirs_log_Print [simp]: "dirs (log_Print l w) = dirs w"
  by (simp add: log_Print_def)

lemma lastUpdate_log_Print [simp]: "lastUpdate (log_Print l w) = lastUpdate w"
  by (simp add: log_Print_def)

lemma loadJSON_secretMap [simp]:
  "loadJSON env (w\<lparr>secretMap := m\<rparr>) n d = loadJSON env w n d"
  by (simp add: loadJSON_def os_Open_def read_all_def cong: option.case_cong sum.case_cong)

lemma loadJSON_jobs_ledger [simp]:
  "loadJSON env (w\<lparr>jobs := js, lastUpdate := l\<rparr>) n d = loadJSON env w n d"
  by (simp add: loadJSON_def os_Open_def read_all_def cong: option.case_cong sum.case_cong)

lemma getLatestArtifact_log [simp]:
  "getLatestArtifact env j (log_Print l w) = getLatestArtifact env j w"
  by (simp add: getLatestArtifact_def token_of_def log_Print_def)

lemma ledger_at_log [simp]: "ledger_at (log_Print l w) k = ledger_at w k"
  by (simp add: ledger_at_def log_Print_def)

subsection \<open>What the operating system calls change\<close>

lemma CreateTemp_loop_Inr:
  "CreateTemp_loop env pre suf n w = (Inr t, w') \<Longrightarrow>
     files w t = None \<and> t \<notin> dirs w
     \<and> files w' = (files w)(t \<mapsto> []) \<and> dirs w' = dirs w \<and> logs w' = logs w
     \<and> lastUpdate w' = lastUpdate w \<and> secretMap w' = secretMap w \<and> jobs w' = jobs w
     \<and> (\<exists>r. t = pre @ r @ suf)"
proof (induction n arbitrary: w)
  case 0
  then show ?case by simp
next
  case (Suc n)
  show ?case
  proof (cases "files w (pre @ nextRandom env (rand_calls w) @ suf) \<noteq> None
                \<or> pre @ nextRandom env (rand_calls w) @ suf \<in> dirs w")
    case True
    with Suc.prems have "CreateTemp_loop env pre suf n (w\<lparr>rand_calls := Suc (rand_calls w)\<rparr>) = (Inr t, w')"
      by (simp add: Let_def)
    from Suc.IH [OF this] show ?thesis by simp
  next
    case False
    with Suc.prems show ?thesis
      by (auto simp: Let_def split: option.splits)
  qed
qed

lemma CreateTemp_loop_Inl:
  "CreateTemp_loop env pre suf n w = (Inl err, w') \<Longrightarrow>
     files w' = files w \<and> dirs w' = dirs w \<and> logs w' = logs w
     \<and> lastUpdate w' = lastUpdate w \<and> secretMap w' = secretMap w \<and> jobs w' = jobs w"
proof (induction n arbitrary: w)
  case 0
  then show ?case by simp
next
  case (Suc n)
  show ?case
  proof (cases "files w (pre @ nextRandom env (rand_calls w) @ suf) \<noteq> None
                \<or> pre @ nextRandom env (rand_calls w) @ suf \<in> dirs w")
    case True
    with Suc.prems have "CreateTemp_loop env pre suf n (w\<lparr>rand_calls := Suc (rand_calls w)\<rparr>) = (Inl err, w')"
      by (simp add: Let_def)
    from Suc.IH [OF this] show ?thesis by simp
  next
    case False
    with Suc.prems show ?thesis
      by (auto simp: Let_def split: option.splits)
  qed
qed

lemma os_CreateTemp_Inr:
  "os_CreateTemp env dir pattern w = (Inr t, w') \<Longrightarrow>
     files w t = None \<and> t \<notin> dirs w
     \<and> files w' = (files w)(t \<mapsto> []) \<and> dirs w' = dirs w \<and> logs w' = logs w
     \<and> lastUpdate w' = lastUpdate w \<and> secretMap w' = secretMap w \<and> jobs w' = jobs w
     \<and> HasPrefix t (dir @ ''/'' @ fst (prefixAndSuffix pattern))"
  unfolding os_CreateTemp_def Let_def HasPrefix_def
  by (drule CreateTemp_loop_Inr) auto

lemma os_CreateTemp_Inl:
  "os_CreateTemp env dir pattern w = (Inl err, w') \<Longrightarrow>
     files w' = files w \<and> dirs w' = dirs w \<and> logs w' = logs w
     \<and> lastUpdate w' = lastUpdate w \<and> secretMap w' = secretMap w \<and> jobs w' = jobs w"
  unfolding os_CreateTemp_def Let_def
  by (drule CreateTemp_loop_Inl) auto

lemma prefix_extract [simp]: "fst (prefixAndSuffix ''extract-*'') = ''extract-''"
  by code_simp

lemma os_MkdirAll_fields [simp]:
  "files (snd (os_MkdirAll env p w)) = files w"
  "logs (snd (os_MkdirAll env p w)) = logs w"
  "lastUpdate (snd (os_MkdirAll env p w)) = lastUpdate w"
  by (simp_all add: os_MkdirAll_def split: option.splits)

lemma io_Copy_fields [simp]:
  "files (snd (io_Copy env t src w)) =
     (files w)(t \<mapsto> (case write_fault env t of Some (n, err) \<Rightarrow> take n (fst src) | None \<Rightarrow> fst src))"
  "fst (io_Copy env t src w) =
     (case write_fault env t of Some (n, err) \<Rightarrow> Some err | None \<Rightarrow> snd src)"
  "logs (snd (io_Copy env t src w)) = logs w"
  "dirs (snd (io_Copy env t src w)) = dirs w"
  "lastUpdate (snd (io_Copy env t src w)) = lastUpdate w"
  by (simp_all add: io_Copy_def split: option.splits prod.splits)

lemma io_Copy_eq:
  "io_Copy env t src w = (r, w') \<Longrightarrow>
     files w' = (files w)(t \<mapsto> (case write_fault env t of Some (n, err) \<Rightarrow> take n (fst src) | None \<Rightarrow> fst src))
     \<and> r = (case write_fault env t of Some (n, err) \<Rightarrow> Some err | None \<Rightarrow> snd src)
     \<and> logs w' = logs w \<and> dirs w' = dirs w \<and> lastUpdate w' = lastUpdate w"
  by (auto simp: io_Copy_def split: option.splits prod.splits)

lemma os_Rename_eq:
  "os_Rename env old new w = (r, w') \<Longrightarrow>
     (r = None \<and> (\<exists>c. files w old = Some c \<and> files w' = ((files w)(old := None))(new \<mapsto> c))
        \<and> logs w' = logs w \<and> dirs w' = dirs w \<and> lastUpdate w' = lastUpdate w)
     \<or> (\<exists>err. r = Some err \<and> w' = w)"
  by (auto simp: os_Rename_def split: if_splits option.splits)

lemma os_Rename_at:
  "q \<noteq> old \<Longrightarrow>
     files (snd (os_Rename env old new w)) q = files w q
     \<or> (q = new \<and> fst (os_Rename env old new w) = None
          \<and> files (snd (os_Rename env old new w)) q = files w old)"
  by (auto simp: os_Rename_def split: option.splits)

lemma loadJSON_files:
  "files w' = files w \<Longrightarrow> loadJSON env w' n d = loadJSON env w n d"
  by (simp add: loadJSON_def os_Open_def read_all_def cong: option.case_cong sum.case_cong)

lemma os_WriteFile_files:
  "files w' = files w \<Longrightarrow>
     fst (os_WriteFile env n d w') = fst (os_WriteFile env n d w)
     \<and> files (snd (os_WriteFile env n d w')) = files (snd (os_WriteFile env n d w))"
  by (simp add: os_WriteFile_def io_Copy_def split: option.splits prod.splits)

subsection \<open>The differential extractor\<close>

lemma hasDiff_False:
  "hasDiff env b p w = Inr False \<Longrightarrow>
     \<exists>c. files w p = Some c \<and> murmur3_Sum128 env c = murmur3_Sum128 env b"
  by (auto simp: hasDiff_def os_Open_def read_all_def Let_def split: option.splits sum.splits if_splits)

lemma hasDiff_readable:
  assumes "open_fault env p = None" and "read_fault env p = None"
  shows "hasDiff env b p w =
           Inr (case files w p of None \<Rightarrow> True
                | Some c \<Rightarrow> murmur3_Sum128 env b \<noteq> murmur3_Sum128 env c)"
  using assms
  by (auto simp: hasDiff_def os_Open_def read_all_def Let_def split: option.splits)

lemma extractDiff_preserves:
  assumes "files w q = Some x" and "q \<noteq> Join [dest, f_Name f]"
  shows "files (snd (extractDiff env f dest w)) q = Some x"
proof -
  obtain r w' where e: "extractDiff env f dest w = (r, w')" by (cases "extractDiff env f dest w")
  have "files w' q = Some x"
    using e assms
    unfolding extractDiff_def Let_def
    by (auto split: option.splits sum.splits prod.splits if_splits
          dest!: os_CreateTemp_Inr os_CreateTemp_Inl os_Rename_eq io_Copy_eq)
  with e show ?thesis by simp
qed

lemma extractDiff_None:
  assumes "extractDiff env f dest w = (None, w')"
  shows "readable f \<and> HasPrefix (Join [dest, f_Name f]) (Clean dest @ ''/'')
       \<and> (\<exists>c. files w' (Join [dest, f_Name f]) = Some c
              \<and> murmur3_Sum128 env c = murmur3_Sum128 env (content f))"
  using assms
  unfolding extractDiff_def Let_def readable_def content_def
  by (auto split: option.splits sum.splits prod.splits if_splits
        dest!: os_CreateTemp_Inr os_CreateTemp_Inl os_Rename_eq io_Copy_eq hasDiff_False)

lemma extractDiff_skip:
  assumes "readable f" and "HasPrefix (Join [dest, f_Name f]) (Clean dest @ ''/'')"
      and "open_fault env (Join [dest, f_Name f]) = None"
      and "read_fault env (Join [dest, f_Name f]) = None"
      and "files w (Join [dest, f_Name f]) = Some c"
      and "murmur3_Sum128 env c = murmur3_Sum128 env (content f)"
  shows "extractDiff env f dest w = (None, w)"
  using assms
  by (auto simp: extractDiff_def Let_def readable_def content_def hasDiff_readable
        split: option.splits sum.splits)

lemma extractDiff_write:
  assumes "f_Open f = None" and "f_Read f = Inr b" and "f_Close f = None"
      and "HasPrefix (Join [dest, f_Name f]) (Clean dest @ ''/'')"
      and "hasDiff env b (Join [dest, f_Name f]) w = Inr True"
  shows "logs (snd (extractDiff env f dest w)) = logs w @ [Info_Extracting (f_Name f)]
       \<and> (fst (extractDiff env f dest w) = None
            \<longrightarrow> files (snd (extractDiff env f dest w)) (Join [dest, f_Name f]) = Some b)"
proof -
  obtain r w' where e: "extractDiff env f dest w = (r, w')" by (cases "extractDiff env f dest w")
  have "logs w' = logs w @ [Info_Extracting (f_Name f)]
      \<and> (r = None \<longrightarrow> files w' (Join [dest, f_Name f]) = Some b)"
    using e assms
    unfolding extractDiff_def Let_def
    by (auto split: option.splits sum.splits prod.splits if_splits
          dest!: os_CreateTemp_Inr os_CreateTemp_Inl os_Rename_eq io_Copy_eq)
  with e show ?thesis by simp
qed

lemma extractDiff_decision:
  assumes "f_Open f = None" and "f_Read f = Inr b" and "f_Close f = None"
      and "HasPrefix (Join [dest, f_Name f]) (Clean dest @ ''/'')"
      and "open_fault env (Join [dest, f_Name f]) = None"
      and "read_fault env (Join [dest, f_Name f]) = None"
  shows "(extractDiff env f dest w = (None, w))
           = (\<exists>old. files w (Join [dest, f_Name f]) = Some old
                   \<and> murmur3_Sum128 env old = murmur3_Sum128 env b)"
    and "files w (Join [dest, f_Name f]) = None
           \<longrightarrow> hasDiff env b (Join [dest, f_Name f]) w = Inr True"
    and "\<not> (\<exists>old. files w (Join [dest, f_Name f]) = Some old
                   \<and> murmur3_Sum128 env old = murmur3_Sum128 env b)
           \<longrightarrow> logs (snd (extractDiff env f dest w)) = logs w @ [Info_Extracting (f_Name f)]
               \<and> (fst (extractDiff env f dest w) = None
                    \<longrightarrow> files (snd (extractDiff env f dest w)) (Join [dest, f_Name f]) = Some b)"
proof -
  let ?p = "Join [dest, f_Name f]"
  let ?same = "\<exists>old. files w ?p = Some old \<and> murmur3_Sum128 env old = murmur3_Sum128 env b"
  have hd: "hasDiff env b ?p w = Inr (\<not> ?same)"
    using assms(5,6) by (auto simp: hasDiff_readable split: option.splits)
  have rd: "readable f" and ct: "content f = b"
    using assms(1-3) by (simp_all add: readable_def content_def)
  show w: "\<not> ?same \<longrightarrow> logs (snd (extractDiff env f dest w)) = logs w @ [Info_Extracting (f_Name f)]
               \<and> (fst (extractDiff env f dest w) = None
                    \<longrightarrow> files (snd (extractDiff env f dest w)) ?p = Some b)"
    using extractDiff_write [OF assms(1-4)] hd by simp
  show "(extractDiff env f dest w = (None, w)) = ?same"
  proof
    assume "extractDiff env f dest w = (None, w)"
    then show ?same using w by (cases ?same) auto
  next
    assume ?same
    then show "extractDiff env f dest w = (None, w)"
      using extractDiff_skip [OF rd assms(4-6)] ct by auto
  qed
  show "files w ?p = None \<longrightarrow> hasDiff env b ?p w = Inr True"
    using hd by auto
qed

lemma extractDiff_lastUpdate [simp]:
  "lastUpdate (snd (extractDiff env f dest w)) = lastUpdate w"
proof -
  obtain r w' where e: "extractDiff env f dest w = (r, w')" by (cases "extractDiff env f dest w")
  have "lastUpdate w' = lastUpdate w"
    using e
    unfolding extractDiff_def Let_def
    by (auto split: option.splits sum.splits prod.splits if_splits
          dest!: os_CreateTemp_Inr os_CreateTemp_Inl os_Rename_eq io_Copy_eq)
  with e show ?thesis by simp
qed

lemma extractDiff_logs:
  "logs (snd (extractDiff env f dest w)) = logs w
   \<or> logs (snd (extractDiff env f dest w)) = logs w @ [Info_Extracting (f_Name f)]"
proof -
  obtain r w' where e: "extractDiff env f dest w = (r, w')" by (cases "extractDiff env f dest w")
  have "logs w' = logs w \<or> logs w' = logs w @ [Info_Extracting (f_Name f)]"
    using e
    unfolding extractDiff_def Let_def
    by (auto split: option.splits sum.splits prod.splits if_splits
          dest!: os_CreateTemp_Inr os_CreateTemp_Inl os_Rename_eq io_Copy_eq)
  with e show ?thesis by simp
qed

lemma extractDiff_extract_errors [simp]:
  "extract_errors (snd (extractDiff env f dest w)) = extract_errors w"
  using extractDiff_logs [of env f dest w] by (auto simp: extract_errors_def)

lemma extractDiff_failure_keeps:
  assumes "\<not> HasPrefix q (tempDir @ ''/extract-'')"
      and "fst (extractDiff env f dest w) \<noteq> None"
  shows "files (snd (extractDiff env f dest w)) q = files w q"
proof -
  obtain r w' where e: "extractDiff env f dest w = (r, w')" by (cases "extractDiff env f dest w")
  have "files w' q = files w q"
    using e assms
    unfolding extractDiff_def Let_def
    by (auto split: option.splits sum.splits prod.splits if_splits
          dest!: os_CreateTemp_Inr os_CreateTemp_Inl os_Rename_eq io_Copy_eq)
  with e show ?thesis by simp
qed

lemma extractDiff_elsewhere:
  assumes "\<not> HasPrefix q (tempDir @ ''/extract-'')" and "q \<noteq> Join [dest, f_Name f]"
  shows "files (snd (extractDiff env f dest w)) q = files w q"
proof -
  obtain r w' where e: "extractDiff env f dest w = (r, w')" by (cases "extractDiff env f dest w")
  have "files w' q = files w q"
    using e assms
    unfolding extractDiff_def Let_def
    by (auto split: option.splits sum.splits prod.splits if_splits
          dest!: os_CreateTemp_Inr os_CreateTemp_Inl os_Rename_eq io_Copy_eq)
  with e show ?thesis by simp
qed

subsection \<open>The states of a write\<close>

lemma copy_states_files:
  "s \<in> set (copy_states env t b w) \<Longrightarrow> q \<noteq> t \<Longrightarrow> files s q = files w q"
  by (auto simp: copy_states_def Let_def)

lemma copy_states_last:
  "last (copy_states env t b w) = snd (io_Copy env t (b, None) w)"
  by (simp add: copy_states_def Let_def)

lemma copy_states_nonempty [simp]: "copy_states env t b w \<noteq> []"
  by (simp add: copy_states_def Let_def)

lemma extractDiff_trace_last:
  "snd (extractDiff env f dest w) = last (w # extractDiff_trace env f dest w)"
  unfolding extractDiff_def extractDiff_trace_def Let_def
  by (auto split: option.splits sum.splits prod.splits simp: copy_states_last)

lemma extractDiff_trace_invariant:
  assumes "\<not> HasPrefix q (tempDir @ ''/extract-'')"
      and "s \<in> set (extractDiff_trace env f dest w)"
  shows "files s q = files w q
       \<or> (q = Join [dest, f_Name f] \<and> files s q = Some (content f))"
proof -
  let ?p = "Join [dest, f_Name f]"
  show ?thesis
  proof (cases "extractDiff_trace env f dest w = []")
    case True
    with assms(2) show ?thesis by simp
  next
    case False
    then obtain b where rd: "f_Open f = None" "f_Read f = Inr b" "f_Close f = None"
      and legal: "HasPrefix ?p (Clean dest @ ''/'')"
      and diff: "hasDiff env b ?p w = Inr True"
      unfolding extractDiff_trace_def Let_def
      by (auto split: option.splits sum.splits if_splits)
    have ct: "content f = b" using rd by (simp add: content_def)
    let ?w1 = "log_Print (Info_Extracting (f_Name f)) w"
    let ?w2 = "snd (os_MkdirAll env (Dir ?p) ?w1)"
    obtain rt w3 where ct3: "os_CreateTemp env tempDir ''extract-*'' ?w2 = (rt, w3)"
      by (cases "os_CreateTemp env tempDir ''extract-*'' ?w2")
    show ?thesis
    proof (cases rt)
      case (Inl err)
      with ct3 have "files w3 = files ?w2" using os_CreateTemp_Inl by blast
      moreover have "s \<in> {?w1, ?w2, w3}"
        using assms(2) rd legal diff ct3 Inl
        unfolding extractDiff_trace_def Let_def by auto
      ultimately show ?thesis by auto
    next
      case (Inr t)
      with ct3 have f3: "files w3 = (files w)(t \<mapsto> [])"
        and pt: "HasPrefix t (tempDir @ ''/extract-'')"
        using os_CreateTemp_Inr [of env tempDir "''extract-*''" ?w2 t w3] by simp_all
      from pt assms(1) have ne: "q \<noteq> t" by auto
      obtain r4 w4 where c4: "io_Copy env t (b, None) w3 = (r4, w4)"
        by (cases "io_Copy env t (b, None) w3")
      have mem: "s \<in> {?w1, ?w2, w3} \<union> set (copy_states env t b w3)
                   \<or> (r4 = None \<and> s = snd (os_Rename env t ?p w4))"
      proof (cases r4)
        case None
        then show ?thesis
          using assms(2) rd legal diff ct3 Inr c4
          unfolding extractDiff_trace_def Let_def
          by (cases "close_fault env t") auto
      next
        case (Some err)
        then show ?thesis
          using assms(2) rd legal diff ct3 Inr c4
          unfolding extractDiff_trace_def Let_def
          by auto
      qed
      show ?thesis
      proof (cases "s \<in> {?w1, ?w2, w3} \<union> set (copy_states env t b w3)")
        case True
        then have "files s q = files w q"
          using f3 ne copy_states_files [of s env t b w3 q] by auto
        then show ?thesis by simp
      next
        case False
        with mem have ok: "r4 = None"
          and s: "s = snd (os_Rename env t ?p w4)" by auto
        from io_Copy_eq [OF c4] ok have "write_fault env t = None"
          by (auto split: option.splits)
        with io_Copy_eq [OF c4] have f4: "files w4 = (files w3)(t \<mapsto> b)" by simp
        from os_Rename_at [OF ne, of env ?p w4] s f4 f3 ne ct show ?thesis by auto
      qed
    qed
  qed
qed

lemma extractDiff_trace_written:
  assumes "extractDiff_trace env f dest w \<noteq> []" and "fst (extractDiff env f dest w) = None"
  shows "files (snd (extractDiff env f dest w)) (Join [dest, f_Name f]) = Some (content f)"
proof -
  from assms(1) obtain b where rd: "f_Open f = None" "f_Read f = Inr b" "f_Close f = None"
    and legal: "HasPrefix (Join [dest, f_Name f]) (Clean dest @ ''/'')"
    and diff: "hasDiff env b (Join [dest, f_Name f]) w = Inr True"
    unfolding extractDiff_trace_def Let_def
    by (auto split: option.splits sum.splits if_splits)
  have "content f = b" using rd by (simp add: content_def)
  with extractDiff_write [OF rd legal diff] assms(2) show ?thesis by simp
qed

subsection \<open>The loop of the synchroniser\<close>

lemma unzipDiff_loop_fold:
  "unzipDiff_loop env fs dest excludes w =
     fold (\<lambda>f. worker env f dest) (selected env excludes fs) w"
  by (induction fs arbitrary: w) (simp_all add: selected_def)

lemma unzipDiff_loop_append:
  "unzipDiff_loop env (fs1 @ fs2) dest excludes w =
     unzipDiff_loop env fs2 dest excludes (unzipDiff_loop env fs1 dest excludes w)"
  by (induction fs1 arbitrary: w) simp_all

lemma worker_lastUpdate [simp]: "lastUpdate (worker env f dest w) = lastUpdate w"
proof -
  obtain r w' where e: "extractDiff env f dest w = (r, w')" by (cases "extractDiff env f dest w")
  then have "lastUpdate w' = lastUpdate w"
    using extractDiff_lastUpdate [of env f dest w] by simp
  with e show ?thesis by (cases r) (simp_all add: worker_def log_Print_def)
qed

lemma unzipDiff_loop_lastUpdate [simp]:
  "lastUpdate (unzipDiff_loop env fs dest excludes w) = lastUpdate w"
  by (induction fs arbitrary: w) simp_all

lemma unzipDiff_lastUpdate [simp]:
  "lastUpdate (snd (unzipDiff env filename dest excludes w)) = lastUpdate w"
  by (simp add: unzipDiff_def split: sum.splits)

lemma worker_extract_errors:
  "extract_errors (worker env f dest w)
     = extract_errors w + (if fst (extractDiff env f dest w) = None then 0 else 1)"
proof -
  obtain r w' where e: "extractDiff env f dest w = (r, w')" by (cases "extractDiff env f dest w")
  then have "extract_errors w' = extract_errors w"
    using extractDiff_extract_errors [of env f dest w] by simp
  with e show ?thesis
    by (cases r) (simp_all add: worker_def extract_errors_def)
qed

lemma fold_worker_extract_errors_mono:
  "extract_errors w \<le> extract_errors (fold (\<lambda>f. worker env f dest) fs w)"
proof (induction fs arbitrary: w)
  case Nil
  then show ?case by simp
next
  case (Cons f fs)
  have "extract_errors w \<le> extract_errors (worker env f dest w)"
    by (simp add: worker_extract_errors)
  also have "\<dots> \<le> extract_errors (fold (\<lambda>f. worker env f dest) fs (worker env f dest w))"
    by (rule Cons.IH)
  finally show ?case by simp
qed

lemma worker_files_preserved:
  assumes "files w q = Some x" and "q \<noteq> Join [dest, f_Name f]"
  shows "files (worker env f dest w) q = Some x"
proof -
  obtain r w' where e: "extractDiff env f dest w = (r, w')" by (cases "extractDiff env f dest w")
  then have "files w' q = Some x"
    using extractDiff_preserves [OF assms, of env] by simp
  with e show ?thesis by (cases r) (simp_all add: worker_def)
qed

lemma fold_worker_files_preserved:
  assumes "files w q = Some x" and "q \<notin> set (map (\<lambda>f. Join [dest, f_Name f]) fs)"
  shows "files (fold (\<lambda>f. worker env f dest) fs w) q = Some x"
  using assms
proof (induction fs arbitrary: w)
  case Nil
  then show ?case by simp
next
  case (Cons f fs)
  then have "files (worker env f dest w) q = Some x"
    using worker_files_preserved [of w q x dest f env] by simp
  with Cons show ?case by simp
qed

lemma worker_elsewhere:
  assumes "\<not> HasPrefix q (tempDir @ ''/extract-'')" and "q \<noteq> Join [dest, f_Name f]"
  shows "files (worker env f dest w) q = files w q"
proof -
  obtain r w' where e: "extractDiff env f dest w = (r, w')" by (cases "extractDiff env f dest w")
  then have "files w' q = files w q"
    using extractDiff_elsewhere [OF assms, of env w] by simp
  with e show ?thesis by (cases r) (simp_all add: worker_def log_Print_def)
qed

lemma fold_worker_elsewhere:
  assumes "\<not> HasPrefix q (tempDir @ ''/extract-'')"
      and "q \<notin> set (map (\<lambda>f. Join [dest, f_Name f]) fs)"
  shows "files (fold (\<lambda>f. worker env f dest) fs w) q = files w q"
  using assms
proof (induction fs arbitrary: w)
  case Nil
  then show ?case by simp
next
  case (Cons f fs)
  then have "files (worker env f dest w) q = files w q"
    using worker_elsewhere [of q dest f env w] by simp
  with Cons show ?case by simp
qed

text \<open>What one worker adds to the log and leaves at the destination of its entry.\<close>

lemma worker_outcome:
  "\<exists>ls. logs (worker env f dest w) = logs w @ ls
     \<and> (\<forall>l \<in> set ls. l = Info_Extracting (f_Name f) \<or> (\<exists>err. l = Error_Extract (f_Name f) err))
     \<and> ((\<exists>err. Error_Extract (f_Name f) err \<in> set ls)
         \<or> (readable f \<and> HasPrefix (Join [dest, f_Name f]) (Clean dest @ ''/'')
            \<and> (\<exists>c. files (worker env f dest w) (Join [dest, f_Name f]) = Some c
                   \<and> murmur3_Sum128 env c = murmur3_Sum128 env (content f))))"
proof -
  obtain r w' where e: "extractDiff env f dest w = (r, w')" by (cases "extractDiff env f dest w")
  from extractDiff_logs [of env f dest w] e
  have l: "logs w' = logs w \<or> logs w' = logs w @ [Info_Extracting (f_Name f)]" by simp
  show ?thesis
  proof (cases r)
    case None
    with e have w: "worker env f dest w = w'" by (simp add: worker_def)
    from extractDiff_None [OF e [unfolded None]] w l show ?thesis by auto
  next
    case (Some err)
    with e have w: "worker env f dest w = log_Print (Error_Extract (f_Name f) err) w'"
      by (simp add: worker_def)
    from l show ?thesis
    proof
      assume "logs w' = logs w"
      with w have "logs (worker env f dest w) = logs w @ [Error_Extract (f_Name f) err]"
        by (simp add: log_Print_def)
      then show ?thesis by auto
    next
      assume "logs w' = logs w @ [Info_Extracting (f_Name f)]"
      with w have "logs (worker env f dest w)
                     = logs w @ [Info_Extracting (f_Name f), Error_Extract (f_Name f) err]"
        by (simp add: log_Print_def)
      then show ?thesis by auto
    qed
  qed
qed

lemma fold_worker_outcome:
  "\<exists>ls. logs (fold (\<lambda>f. worker env f dest) fs w) = logs w @ ls
     \<and> (\<forall>l \<in> set ls. \<exists>f \<in> set fs.
           l = Info_Extracting (f_Name f) \<or> (\<exists>err. l = Error_Extract (f_Name f) err))
     \<and> (distinct (map (\<lambda>f. Join [dest, f_Name f]) fs) \<longrightarrow>
          (\<forall>f \<in> set fs.
             (\<exists>err. Error_Extract (f_Name f) err \<in> set ls)
             \<or> (readable f \<and> HasPrefix (Join [dest, f_Name f]) (Clean dest @ ''/'')
                \<and> (\<exists>c. files (fold (\<lambda>f. worker env f dest) fs w) (Join [dest, f_Name f]) = Some c
                       \<and> murmur3_Sum128 env c = murmur3_Sum128 env (content f)))))"
proof (induction fs arbitrary: w)
  case Nil
  then show ?case by simp
next
  case (Cons g gs)
  let ?w' = "worker env g dest w"
  let ?end = "fold (\<lambda>f. worker env f dest) gs ?w'"
  let ?ok = "\<lambda>f v. readable f \<and> HasPrefix (Join [dest, f_Name f]) (Clean dest @ ''/'')
                \<and> (\<exists>c. files v (Join [dest, f_Name f]) = Some c
                       \<and> murmur3_Sum128 env c = murmur3_Sum128 env (content f))"
  from worker_outcome [of env g dest w] obtain l1 where
    a1: "logs ?w' = logs w @ l1"
    and a2: "\<forall>l \<in> set l1. l = Info_Extracting (f_Name g) \<or> (\<exists>err. l = Error_Extract (f_Name g) err)"
    and a3: "(\<exists>err. Error_Extract (f_Name g) err \<in> set l1) \<or> ?ok g ?w'"
    by blast
  from Cons.IH [of ?w'] obtain l2 where
    b1: "logs ?end = logs ?w' @ l2"
    and b2: "\<forall>l \<in> set l2. \<exists>f \<in> set gs.
               l = Info_Extracting (f_Name f) \<or> (\<exists>err. l = Error_Extract (f_Name f) err)"
    and b3: "distinct (map (\<lambda>f. Join [dest, f_Name f]) gs) \<longrightarrow>
               (\<forall>f \<in> set gs. (\<exists>err. Error_Extract (f_Name f) err \<in> set l2) \<or> ?ok f ?end)"
    by blast
  have c1: "logs (fold (\<lambda>f. worker env f dest) (g # gs) w) = logs w @ (l1 @ l2)"
    using a1 b1 by simp
  have c2: "\<forall>l \<in> set (l1 @ l2). \<exists>f \<in> set (g # gs).
               l = Info_Extracting (f_Name f) \<or> (\<exists>err. l = Error_Extract (f_Name f) err)"
    using a2 b2 by auto
  have c3: "distinct (map (\<lambda>f. Join [dest, f_Name f]) (g # gs)) \<longrightarrow>
               (\<forall>f \<in> set (g # gs). (\<exists>err. Error_Extract (f_Name f) err \<in> set (l1 @ l2))
                   \<or> ?ok f (fold (\<lambda>f. worker env f dest) (g # gs) w))"
  proof (intro impI ballI)
    fix f
    assume d: "distinct (map (\<lambda>f. Join [dest, f_Name f]) (g # gs))" and f: "f \<in> set (g # gs)"
    from d have dg: "distinct (map (\<lambda>f. Join [dest, f_Name f]) gs)"
      and ng: "Join [dest, f_Name g] \<notin> set (map (\<lambda>f. Join [dest, f_Name f]) gs)" by simp_all
    show "(\<exists>err. Error_Extract (f_Name f) err \<in> set (l1 @ l2))
            \<or> ?ok f (fold (\<lambda>f. worker env f dest) (g # gs) w)"
    proof (cases "f = g")
      case True
      from a3 show ?thesis
      proof
        assume "\<exists>err. Error_Extract (f_Name g) err \<in> set l1"
        with True show ?thesis by auto
      next
        assume ok: "?ok g ?w'"
        then obtain c where c: "files ?w' (Join [dest, f_Name g]) = Some c"
          "murmur3_Sum128 env c = murmur3_Sum128 env (content g)" by blast
        from c(1) ng have "files ?end (Join [dest, f_Name g]) = Some c"
          using fold_worker_files_preserved [of ?w' "Join [dest, f_Name g]" c dest gs env] by simp
        with True ok c(2) show ?thesis by auto
      qed
    next
      case False
      with f have "f \<in> set gs" by simp
      with b3 dg have "(\<exists>err. Error_Extract (f_Name f) err \<in> set l2) \<or> ?ok f ?end" by blast
      then show ?thesis by auto
    qed
  qed
  from c1 c2 c3 show ?case by blast
qed


text \<open>
  After a first run without extraction errors over entries with pairwise distinct
  destination paths, every entry could be read, passed the path check, and finds at its
  destination a file with its digest.
\<close>

lemma first_run_deploys:
  assumes "distinct (map (\<lambda>f. Join [dest, f_Name f]) fs)"
      and "extract_errors (fold (\<lambda>f. worker env f dest) fs w) = extract_errors w"
      and "f \<in> set fs"
  shows "readable f \<and> HasPrefix (Join [dest, f_Name f]) (Clean dest @ ''/'')
       \<and> (\<exists>c. files (fold (\<lambda>f. worker env f dest) fs w) (Join [dest, f_Name f]) = Some c
              \<and> murmur3_Sum128 env c = murmur3_Sum128 env (content f))"
  using assms
proof (induction fs arbitrary: w)
  case Nil
  then show ?case by simp
next
  case (Cons g gs)
  let ?w' = "worker env g dest w"
  let ?end = "fold (\<lambda>f. worker env f dest) gs ?w'"
  have m1: "extract_errors w \<le> extract_errors ?w'"
    by (simp add: worker_extract_errors)
  have m2: "extract_errors ?w' \<le> extract_errors ?end"
    by (rule fold_worker_extract_errors_mono)
  from Cons.prems(2) have tot: "extract_errors ?end = extract_errors w" by simp
  with m1 m2 have e1: "extract_errors ?w' = extract_errors w"
    and e2: "extract_errors ?end = extract_errors ?w'" by auto
  from e1 have ok: "fst (extractDiff env g dest w) = None"
    by (simp add: worker_extract_errors split: if_splits)
  then obtain w1 where x: "extractDiff env g dest w = (None, w1)"
    by (cases "extractDiff env g dest w") auto
  then have w1: "?w' = w1" by (simp add: worker_def)
  from Cons.prems(1) have d: "distinct (map (\<lambda>f. Join [dest, f_Name f]) gs)"
    and ng: "Join [dest, f_Name g] \<notin> set (map (\<lambda>f. Join [dest, f_Name f]) gs)" by simp_all
  show ?case
  proof (cases "f = g")
    case True
    from extractDiff_None [OF x] obtain c where
      r: "readable g" and l: "HasPrefix (Join [dest, f_Name g]) (Clean dest @ ''/'')"
      and c: "files w1 (Join [dest, f_Name g]) = Some c"
             "murmur3_Sum128 env c = murmur3_Sum128 env (content g)" by blast
    from c(1) w1 ng have "files ?end (Join [dest, f_Name g]) = Some c"
      using fold_worker_files_preserved [of ?w' "Join [dest, f_Name g]" c dest gs env] by simp
    with True r l c(2) show ?thesis by auto
  next
    case False
    with Cons.prems(3) have "f \<in> set gs" by simp
    from Cons.IH [OF d e2 this] show ?thesis by simp
  qed
qed

lemma fold_worker_fixed:
  assumes "\<forall>f \<in> set fs. worker env f dest w = w"
  shows "fold (\<lambda>f. worker env f dest) fs w = w"
  using assms by (induction fs) simp_all

lemma second_run_fixed:
  assumes "distinct (map (\<lambda>f. Join [dest, f_Name f]) (selected env excludes fs))"
      and "extract_errors (unzipDiff_loop env fs dest excludes w) = extract_errors w"
      and "\<forall>f \<in> set (selected env excludes fs).
             open_fault env (Join [dest, f_Name f]) = None
             \<and> read_fault env (Join [dest, f_Name f]) = None"
  shows "unzipDiff_loop env fs dest excludes (unzipDiff_loop env fs dest excludes w)
           = unzipDiff_loop env fs dest excludes w"
proof -
  let ?sel = "selected env excludes fs"
  let ?w1 = "fold (\<lambda>f. worker env f dest) ?sel w"
  have e: "extract_errors ?w1 = extract_errors w"
    using assms(2) by (simp add: unzipDiff_loop_fold)
  have "\<forall>f \<in> set ?sel. worker env f dest ?w1 = ?w1"
  proof
    fix f assume f: "f \<in> set ?sel"
    from first_run_deploys [OF assms(1) e f] obtain c where
      r: "readable f" and l: "HasPrefix (Join [dest, f_Name f]) (Clean dest @ ''/'')"
      and c: "files ?w1 (Join [dest, f_Name f]) = Some c"
             "murmur3_Sum128 env c = murmur3_Sum128 env (content f)" by blast
    from assms(3) f have o: "open_fault env (Join [dest, f_Name f]) = None"
      and rf: "read_fault env (Join [dest, f_Name f]) = None" by auto
    from extractDiff_skip [OF r l o rf c] show "worker env f dest ?w1 = ?w1"
      by (simp add: worker_def)
  qed
  then have "fold (\<lambda>f. worker env f dest) ?sel ?w1 = ?w1"
    by (rule fold_worker_fixed)
  then show ?thesis by (simp add: unzipDiff_loop_fold)
qed

subsection \<open>The ledger, the jobs and the start-up\<close>

lemma downloadArtifact_lastUpdate [simp]:
  "lastUpdate (snd (downloadArtifact env owner a filename w)) = lastUpdate w"
proof -
  obtain r w' where e: "downloadArtifact env owner a filename w = (r, w')"
    by (cases "downloadArtifact env owner a filename w")
  have "lastUpdate w' = lastUpdate w"
    using e
    unfolding downloadArtifact_def
    by (auto split: option.splits sum.splits prod.splits if_splits
          dest!: os_CreateTemp_Inr os_CreateTemp_Inl os_Rename_eq io_Copy_eq)
  with e show ?thesis by simp
qed

lemma saveJSON_lastUpdate [simp]:
  "lastUpdate (snd (saveJSON env filename v w)) = lastUpdate w"
proof -
  obtain r w' where e: "saveJSON env filename v w = (r, w')" by (cases "saveJSON env filename v w")
  have "lastUpdate w' = lastUpdate w"
    using e
    unfolding saveJSON_def
    by (auto split: option.splits sum.splits prod.splits if_splits
          dest!: os_CreateTemp_Inr os_CreateTemp_Inl os_Rename_eq io_Copy_eq)
  with e show ?thesis by simp
qed

lemma markUpdate_Running:
  "markUpdate env key t w = Running w' \<Longrightarrow> lastUpdate w' = (lastUpdate w)(key \<mapsto> t)"
proof -
  assume m: "markUpdate env key t w = Running w'"
  let ?w1 = "w\<lparr>lastUpdate := (lastUpdate w)(key \<mapsto> t)\<rparr>"
  obtain r w2 where s: "saveJSON env logFile (lastUpdate ?w1) ?w1 = (r, w2)"
    by (cases "saveJSON env logFile (lastUpdate ?w1) ?w1")
  then have "lastUpdate w2 = lastUpdate ?w1"
    using saveJSON_lastUpdate [of env logFile "lastUpdate ?w1" ?w1] by simp
  with m s show ?thesis
    by (cases r) (simp_all add: markUpdate_def Let_def log_Fatal_def)
qed

lemma runJob_listing_fails:
  "getLatestArtifact env j w = Inl err \<Longrightarrow>
     runJob env j w = Running (log_Print (Error_Job (job_key j) err)
                                 (log_Print (Info_RunningJob (job_key j)) w))"
  by (simp add: runJob_def Let_def)

lemma runJob_same_version:
  "getLatestArtifact env j w = Inr a \<Longrightarrow> CreatedAt a = ledger_at w (job_key j) \<Longrightarrow>
     runJob env j w = Running (log_Print (Info_RunningJob (job_key j)) w)"
  by (simp add: runJob_def Let_def)

lemma runJob_new_version:
  assumes "getLatestArtifact env j w = Inr a" and "CreatedAt a \<noteq> ledger_at w (job_key j)"
      and "runJob env j w = Running w'"
  shows "lastUpdate w' = (lastUpdate w)(job_key j \<mapsto> CreatedAt a)"
proof -
  let ?w0 = "log_Print (Info_RunningJob (job_key j)) w"
  from assms obtain w1 where m: "markUpdate env (job_key j) (CreatedAt a) ?w0 = Running w1"
    by (cases "markUpdate env (job_key j) (CreatedAt a) ?w0") (simp_all add: runJob_def Let_def)
  then have l1: "lastUpdate w1 = (lastUpdate w)(job_key j \<mapsto> CreatedAt a)"
    using markUpdate_Running by fastforce
  obtain r2 w2 where d: "downloadArtifact env (Owner j) a (job_key j) w1 = (r2, w2)"
    by (cases "downloadArtifact env (Owner j) a (job_key j) w1")
  then have l2: "lastUpdate w2 = lastUpdate w1"
    using downloadArtifact_lastUpdate [of env "Owner j" a "job_key j" w1] by simp
  obtain r3 w3 where u: "unzipDiff env (Join [artifactsDir, job_key j @ ''.zip'']) (DeployPath j) (Excludes j) w2 = (r3, w3)"
    by (cases "unzipDiff env (Join [artifactsDir, job_key j @ ''.zip'']) (DeployPath j) (Excludes j) w2")
  then have l3: "lastUpdate w3 = lastUpdate w2"
    by (metis unzipDiff_lastUpdate snd_conv)
  from assms m d u have "lastUpdate w' = lastUpdate w2 \<or> lastUpdate w' = lastUpdate w3"
    by (cases r2; cases r3) (auto simp: runJob_def Let_def)
  with l1 l2 l3 show ?thesis by auto
qed

lemma markUpdate_fatal:
  assumes "fst (saveJSON env logFile ((lastUpdate w)(key \<mapsto> t))
                  (w\<lparr>lastUpdate := (lastUpdate w)(key \<mapsto> t)\<rparr>)) = Some err"
  shows "\<exists>w'. markUpdate env key t w = Exited w' \<and> last (logs w') = Fatal err"
  using assms
  by (auto simp: markUpdate_def log_Fatal_def Let_def split: prod.splits option.splits)

lemma runJob_fatal:
  assumes "getLatestArtifact env j w = Inr a"
      and "CreatedAt a \<noteq> ledger_at w (job_key j)"
      and "markUpdate env (job_key j) (CreatedAt a)
             (log_Print (Info_RunningJob (job_key j)) w) = Exited w1"
  shows "runJob env j w = Exited w1 \<and> runJobs_loop env (j # js) w = Exited w1"
  using assms by (simp add: runJob_def Let_def)

lemma init_fatal_secrets:
  assumes "loadJSON env w secretFile (decode_secrets env) = Inl err"
  shows "\<exists>w'. init env w = Exited w' \<and> last (logs w') = Fatal err"
  using assms by (simp add: init_def log_Fatal_def)

lemma init_fatal_jobs:
  assumes "loadJSON env w secretFile (decode_secrets env) = Inr ss"
      and "loadJSON env w jobFile (decode_jobs env) = Inl err"
  shows "\<exists>w'. init env w = Exited w' \<and> last (logs w') = Fatal err"
  using assms by (simp add: init_def log_Fatal_def Let_def)

lemma init_fatal_ledger:
  assumes "loadJSON env w secretFile (decode_secrets env) = Inr ss"
      and "loadJSON env w jobFile (decode_jobs env) = Inr js"
      and "files w logFile \<noteq> None"
      and "loadJSON env w logFile (decode_ledger env) = Inl err"
  shows "\<exists>w'. init env w = Exited w' \<and> last (logs w') = Fatal err"
  using assms by (auto simp: init_def log_Fatal_def Let_def)

lemma init_fatal_new_ledger:
  assumes "loadJSON env w secretFile (decode_secrets env) = Inr ss"
      and "loadJSON env w jobFile (decode_jobs env) = Inr js"
      and "files w logFile = None"
      and "fst (os_WriteFile env logFile ''{}'' w) = Some err
           \<or> fst (os_WriteFile env logFile ''{}'' w) = None
              \<and> loadJSON env (snd (os_WriteFile env logFile ''{}'' w)) logFile (decode_ledger env)
                   = Inl err"
  shows "\<exists>w'. init env w = Exited w' \<and> last (logs w') = Fatal err"
proof -
  let ?w2 = "w\<lparr>secretMap := fold (\<lambda>s m. m(s_Owner s \<mapsto> s_Token s)) ss Map.empty,
               jobs := js, lastUpdate := Map.empty\<rparr>"
  have f: "files ?w2 = files w" by simp
  obtain r w3 where x: "os_WriteFile env logFile ''{}'' ?w2 = (r, w3)"
    by (cases "os_WriteFile env logFile ''{}'' ?w2")
  from os_WriteFile_files [OF f, of env logFile "''{}''"] x
  have r: "r = fst (os_WriteFile env logFile ''{}'' w)"
    and f3: "files w3 = files (snd (os_WriteFile env logFile ''{}'' w))" by simp_all
  have l: "loadJSON env w3 logFile (decode_ledger env)
             = loadJSON env (snd (os_WriteFile env logFile ''{}'' w)) logFile (decode_ledger env)"
    by (rule loadJSON_files [OF f3])
  show ?thesis
  proof (cases r)
    case None
    with assms(4) r l have "loadJSON env w3 logFile (decode_ledger env) = Inl err" by auto
    with assms(1-3) x None show ?thesis
      by (simp add: init_def log_Fatal_def Let_def)
  next
    case (Some e)
    with assms(4) r have "e = err" by auto
    with assms(1-3) x Some show ?thesis
      by (simp add: init_def log_Fatal_def Let_def)
  qed
qed

subsection \<open>The exclusion matcher\<close>

text \<open>No pattern excludes nothing; a pattern whose call returns an error is passed over.\<close>

lemma pathMatches_no_patterns: "pathMatches env p [] = False"
  by simp

lemma pathMatches_error_skipped:
  "regexp_MatchString env (''^'' @ e @ ''$'') p = Inl err \<Longrightarrow>
     pathMatches env p (es1 @ e # es2) = (pathMatches env p es1 \<or> pathMatches env p es2)"
  by (induction es1) (auto split: sum.splits bool.splits)

text \<open>The examples of the specification, on the fragment.\<close>

lemma exclusion_examples:
  "\<not> pathMatches env_plain ''sub/data.json'' [''data'' @ [CHR 0x5C] @ ''.json'']"
  "pathMatches env_plain ''sub/data.json'' [''.*data'' @ [CHR 0x5C] @ ''.json'']"
  "pathMatches env_plain ''data.json'' [''data'' @ [CHR 0x5C] @ ''.json'']"
  by code_simp+

section \<open>The claims\<close>

subsection \<open>C1: the ledger and the download\<close>

text \<open>
  Claim C1, as the program has it. The ledger entry of a job is set as soon as the listing
  has returned an artifact whose creation time differs from the entry, before the
  download starts. When the listing fails, \<open>runJob\<close> writes two log lines and changes nothing
  else: the entry is as it was and the version is tried again in the next cycle. When the
  listing returns the version of the ledger, only the first log line is written. When it
  returns another version and \<open>runJob\<close> returns, the entry holds the creation time of that
  version, whether the download and the extraction succeeded or not.
\<close>

theorem ledger_marked_before_download:
  "(getLatestArtifact env j w = Inl err \<longrightarrow>
      runJob env j w = Running (log_Print (Error_Job (job_key j) err)
                                  (log_Print (Info_RunningJob (job_key j)) w)))
   \<and> (getLatestArtifact env j w = Inr a \<and> CreatedAt a = ledger_at w (job_key j) \<longrightarrow>
      runJob env j w = Running (log_Print (Info_RunningJob (job_key j)) w))
   \<and> (getLatestArtifact env j w = Inr a \<and> CreatedAt a \<noteq> ledger_at w (job_key j)
        \<and> runJob env j w = Running w' \<longrightarrow>
      lastUpdate w' = (lastUpdate w)(job_key j \<mapsto> CreatedAt a))"
  using runJob_listing_fails runJob_same_version runJob_new_version by blast

theorem ledger_marked_before_download_witness:
  "runJob env_plain sample_job world_empty
     = Running (log_Print (Error_Job ''o.r.dist'' (IOError ''offline''))
                  (log_Print (Info_RunningJob ''o.r.dist'') world_empty))
   \<and> lastUpdate (state_of (runJob (env_listing env_plain 5) sample_job world_empty))
       = (lastUpdate world_empty)(''o.r.dist'' \<mapsto> 5)"
proof -
  have k: "job_key sample_job = ''o.r.dist''"
    by code_simp
  have l: "getLatestArtifact env_plain sample_job world_empty = Inl (IOError ''offline'')"
    by code_simp
  have g: "getLatestArtifact (env_listing env_plain 5) sample_job world_empty
             = Inr (sample_artifact 5)"
    by code_simp
  have n: "CreatedAt (sample_artifact 5) \<noteq> ledger_at world_empty (job_key sample_job)"
    by code_simp
  have c: "CreatedAt (sample_artifact 5) = 5"
    by (simp add: sample_artifact_def)
  have "is_Running (runJob (env_listing env_plain 5) sample_job world_empty)"
    by code_simp
  then have r: "runJob (env_listing env_plain 5) sample_job world_empty
                  = Running (state_of (runJob (env_listing env_plain 5) sample_job world_empty))"
    by (cases "runJob (env_listing env_plain 5) sample_job world_empty") (simp_all add: state_of_def)
  show ?thesis
    using ledger_marked_before_download
            [of env_plain sample_job world_empty "IOError ''offline''"] l
          ledger_marked_before_download
            [of "env_listing env_plain 5" sample_job world_empty _ "sample_artifact 5"
                "state_of (runJob (env_listing env_plain 5) sample_job world_empty)"] g n r
    by (simp add: k c)
qed

text \<open>
  The claim as stated, that a failed download leaves the ledger entry unchanged and the
  version is retried, fails: the listing returns a version created at time 5, the download
  fails, and the entry, empty before, holds 5 after \<open>runJob\<close>; the next \<open>runJob\<close> finds the
  version in the ledger and only logs that it runs.
\<close>

theorem ledger_unchanged_on_download_failure_counterexample:
  "getLatestArtifact (env_listing env_plain 5) sample_job world_empty = Inr (sample_artifact 5)
   \<and> lastUpdate world_empty (job_key sample_job) = None
   \<and> is_Running (runJob (env_listing env_plain 5) sample_job world_empty)
   \<and> last (logs (state_of (runJob (env_listing env_plain 5) sample_job world_empty)))
        = Error_Job ''o.r.dist'' (IOError ''offline'')
   \<and> lastUpdate (state_of (runJob (env_listing env_plain 5) sample_job world_empty))
        (job_key sample_job) = Some 5
   \<and> logs (state_of (runJob (env_listing env_plain 5) sample_job
                (state_of (runJob (env_listing env_plain 5) sample_job world_empty))))
        = logs (state_of (runJob (env_listing env_plain 5) sample_job world_empty))
            @ [Info_RunningJob ''o.r.dist'']"
  by code_simp

subsection \<open>C2: entries that leave the destination\<close>

text \<open>
  Claim C2. An entry whose joined and cleaned path does not begin with the cleaned
  destination followed by a separator fails and changes nothing, neither the file system
  nor the log; the error is the illegal-path error whenever the entry could be read (the
  entry is read before its path is checked, and an entry that cannot be read fails with
  the error of the read).
\<close>

theorem traversal_rejected:
  assumes "\<not> HasPrefix (Join [dest, f_Name f]) (Clean dest @ ''/'')"
  shows "snd (extractDiff env f dest w) = w
       \<and> fst (extractDiff env f dest w) \<noteq> None
       \<and> (readable f \<longrightarrow>
            fst (extractDiff env f dest w) = Some (IllegalFilePath (Join [dest, f_Name f])))"
  using assms
  by (auto simp: extractDiff_def readable_def Let_def split: option.splits sum.splits)

theorem traversal_rejected_witness:
  "extractDiff env_plain (file_entry ''../../etc/passwd'' ''root'') ''/tmp/'' world_empty
     = (Some (IllegalFilePath ''/etc/passwd''), world_empty)"
proof -
  have j: "Join [''/tmp/'', f_Name (file_entry ''../../etc/passwd'' ''root'')] = ''/etc/passwd''"
    by code_simp
  have h: "\<not> HasPrefix (Join [''/tmp/'', f_Name (file_entry ''../../etc/passwd'' ''root'')])
                 (Clean ''/tmp/'' @ ''/'')"
    by code_simp
  have r: "readable (file_entry ''../../etc/passwd'' ''root'')"
    by code_simp
  show ?thesis
    using traversal_rejected [OF h, of env_plain world_empty] r j
    by (simp add: prod_eq_iff)
qed

text \<open>
  The check compares texts. The claim is about the entries it refuses; an entry it lets
  pass need not lie under the destination when the destination is relative and consists
  of \<^verbatim>\<open>..\<close> elements only: for the destination \<^verbatim>\<open>..\<close> the name \<^verbatim>\<open>../x\<close> joins to \<^verbatim>\<open>../../x\<close>, which
  begins with \<^verbatim>\<open>../\<close>, and is written.
\<close>

lemma textual_check_relative_root:
  "HasPrefix (Join [''..'', ''../x'']) (Clean ''..'' @ ''/'')"
  "fst (extractDiff env_plain (file_entry ''../x'' ''X'') ''..'' world_empty) = None"
  "files (snd (extractDiff env_plain (file_entry ''../x'' ''X'') ''..'' world_empty)) ''../../x''
     = Some ''X''"
  by code_simp+

subsection \<open>C3: the replacement of a file\<close>

text \<open>
  Claim C3, as the program has it. A write goes through a new temporary file
  \<^verbatim>\<open>tmp/extract-...\<close> in the fixed directory \<open>tempDir\<close>, whatever volume the destination is on:
  in every state the call passes through, a path that is not such a temporary name holds
  what it held before the call, or it is the destination path and holds the complete new
  content. So a destination that is not itself a temporary name never holds a partial
  file. The last of these states is the state the call returns. When the call returns an
  error (a rename across volumes among them) such a path holds what it held before; when
  it returns \<^verbatim>\<open>nil\<close> after a write, the destination holds the new content.
\<close>

theorem replace_is_atomic:
  "(\<forall>s \<in> set (w # extractDiff_trace env f dest w).
      \<forall>q. \<not> HasPrefix q (tempDir @ ''/extract-'') \<longrightarrow>
        files s q = files w q
        \<or> (q = Join [dest, f_Name f] \<and> files s q = Some (content f)))
   \<and> snd (extractDiff env f dest w) = last (w # extractDiff_trace env f dest w)
   \<and> (\<forall>q. \<not> HasPrefix q (tempDir @ ''/extract-'') \<and> fst (extractDiff env f dest w) \<noteq> None
          \<longrightarrow> files (snd (extractDiff env f dest w)) q = files w q)
   \<and> (extractDiff_trace env f dest w \<noteq> [] \<and> fst (extractDiff env f dest w) = None
          \<longrightarrow> files (snd (extractDiff env f dest w)) (Join [dest, f_Name f]) = Some (content f))"
  using extractDiff_trace_invariant extractDiff_trace_last extractDiff_failure_keeps
        extractDiff_trace_written
  by auto

theorem replace_is_atomic_witness:
  "list_all (\<lambda>s. files s ''/srv/a.txt'' = Some ''X'' \<or> files s ''/srv/a.txt'' = Some ''XY'')
     (world_deployed # extractDiff_trace env_plain (file_entry ''a.txt'' ''XY'') ''/srv'' world_deployed)
   \<and> length (extractDiff_trace env_plain (file_entry ''a.txt'' ''XY'') ''/srv'' world_deployed) = 7
   \<and> files (snd (extractDiff env_plain (file_entry ''a.txt'' ''XY'') ''/srv'' world_deployed))
        ''/srv/a.txt'' = Some ''XY''"
proof -
  let ?f = "file_entry ''a.txt'' ''XY''"
  have np: "\<not> HasPrefix ''/srv/a.txt'' (tempDir @ ''/extract-'')"
    by code_simp
  have j: "Join [''/srv'', f_Name ?f] = ''/srv/a.txt''"
    by code_simp
  have c: "content ?f = ''XY''"
    by code_simp
  have o: "files world_deployed ''/srv/a.txt'' = Some ''X''"
    by (simp add: world_deployed_def world_empty_def)
  have n: "length (extractDiff_trace env_plain ?f ''/srv'' world_deployed) = 7"
    by code_simp
  then have ne: "extractDiff_trace env_plain ?f ''/srv'' world_deployed \<noteq> []"
    by auto
  have ok: "fst (extractDiff env_plain ?f ''/srv'' world_deployed) = None"
    by code_simp
  note t = replace_is_atomic [of world_deployed env_plain ?f "''/srv''"]
  from t np have "\<forall>s \<in> set (world_deployed # extractDiff_trace env_plain ?f ''/srv'' world_deployed).
           files s ''/srv/a.txt'' = files world_deployed ''/srv/a.txt''
           \<or> files s ''/srv/a.txt'' = Some (content ?f)"
    by blast
  then have a: "list_all (\<lambda>s. files s ''/srv/a.txt'' = Some ''X'' \<or> files s ''/srv/a.txt'' = Some ''XY'')
     (world_deployed # extractDiff_trace env_plain ?f ''/srv'' world_deployed)"
    unfolding list_all_iff o c by blast
  from t ne ok have "files (snd (extractDiff env_plain ?f ''/srv'' world_deployed))
        (Join [''/srv'', f_Name ?f]) = Some (content ?f)"
    by blast
  then have b: "files (snd (extractDiff env_plain ?f ''/srv'' world_deployed)) ''/srv/a.txt'' = Some ''XY''"
    unfolding j c .
  show ?thesis using a n b by simp
qed

text \<open>
  The claim as stated fails twice. The temporary file need not be on the volume of the
  destination: with \<^verbatim>\<open>tmp\<close> on one volume and \<^verbatim>\<open>/srv\<close> on another, the entry differs, the rename
  fails, nothing is written to the destination and the temporary file stays. And a
  destination path that is itself a temporary name can be the file \<^verbatim>\<open>os.CreateTemp\<close> creates:
  the destination, missing before, is then empty and partially written on the way.
\<close>

theorem replace_on_same_volume_counterexample:
  "fst (extractDiff env_two_volumes (file_entry ''a.txt'' ''X'') ''/srv'' world_empty) = Some CrossDevice
   \<and> files (snd (extractDiff env_two_volumes (file_entry ''a.txt'' ''X'') ''/srv'' world_empty))
        ''/srv/a.txt'' = None
   \<and> files (snd (extractDiff env_two_volumes (file_entry ''a.txt'' ''X'') ''/srv'' world_empty))
        ''tmp/extract-7'' = Some ''X''
   \<and> volume env_two_volumes ''tmp/extract-7'' \<noteq> volume env_two_volumes ''/srv/a.txt''
   \<and> map (\<lambda>s. files s ''tmp/extract-7'')
        (extractDiff_trace env_plain (file_entry ''extract-7'' ''XY'') ''tmp'' world_empty)
       = [None, None, Some [], Some [], Some ''X'', Some ''XY'', Some ''XY'']"
  by code_simp

subsection \<open>C4: anchored patterns\<close>

text \<open>
  Claim C4, at an input where the program departs from it. The anchors are put around the
  text of the pattern, and alternation binds weaker than concatenation: for the pattern
  \<^verbatim>\<open>README|LICENSE\<close> the expression \<^verbatim>\<open>^README|LICENSE$\<close> is \<^verbatim>\<open>^README\<close> or \<^verbatim>\<open>LICENSE$\<close>, and the
  path \<^verbatim>\<open>README.md\<close> is excluded although the pattern does not match the whole of it.
\<close>

theorem alternation_escapes_anchors:
  "pathMatches env_plain ''README.md'' [''README|LICENSE'']
   \<and> \<not> excludes_entire ''README|LICENSE'' ''README.md''
   \<and> Compile ''^README|LICENSE$''
       = Inr (Alternate (mk_concat (BeginText # map Literal ''README''))
                        (mk_concat (map Literal ''LICENSE'' @ [EndText])))"
  by code_simp

subsection \<open>C5: written when different\<close>

text \<open>
  Claim C5. For an entry that can be read and whose path passes the check, and a
  destination that can be opened and read: \<open>extractDiff\<close> returns \<^verbatim>\<open>nil\<close> and leaves the world
  as it is (the outcome Skipped) exactly when a file exists at the destination path whose
  digest equals the digest of the entry; a missing file counts as a difference; and in
  every other case the entry is written: the line \<^verbatim>\<open>Extracting\<close> is logged, and when the call
  returns \<^verbatim>\<open>nil\<close> the destination holds the entry's content.
\<close>

theorem written_iff_differs:
  assumes "f_Open f = None" and "f_Read f = Inr b" and "f_Close f = None"
      and "HasPrefix (Join [dest, f_Name f]) (Clean dest @ ''/'')"
      and "open_fault env (Join [dest, f_Name f]) = None"
      and "read_fault env (Join [dest, f_Name f]) = None"
  shows "((extractDiff env f dest w = (None, w))
            = (\<exists>old. files w (Join [dest, f_Name f]) = Some old
                    \<and> murmur3_Sum128 env old = murmur3_Sum128 env b))
       \<and> (files w (Join [dest, f_Name f]) = None
            \<longrightarrow> hasDiff env b (Join [dest, f_Name f]) w = Inr True)
       \<and> (\<not> (\<exists>old. files w (Join [dest, f_Name f]) = Some old
                    \<and> murmur3_Sum128 env old = murmur3_Sum128 env b)
            \<longrightarrow> logs (snd (extractDiff env f dest w)) = logs w @ [Info_Extracting (f_Name f)]
                \<and> (fst (extractDiff env f dest w) = None
                     \<longrightarrow> files (snd (extractDiff env f dest w)) (Join [dest, f_Name f]) = Some b))"
  using extractDiff_decision [OF assms] by blast

theorem written_iff_differs_witness:
  "extractDiff env_plain (file_entry ''a.txt'' ''X'') ''/srv'' world_deployed = (None, world_deployed)
   \<and> hasDiff env_plain ''X'' ''/srv/a.txt'' world_empty = Inr True
   \<and> logs (snd (extractDiff env_plain (file_entry ''a.txt'' ''X'') ''/srv'' world_empty))
        = [Info_Extracting ''a.txt'']
   \<and> fst (extractDiff env_plain (file_entry ''a.txt'' ''X'') ''/srv'' world_empty) = None
   \<and> files (snd (extractDiff env_plain (file_entry ''a.txt'' ''X'') ''/srv'' world_empty)) ''/srv/a.txt''
        = Some ''X''
   \<and> fst (extractDiff env_plain (file_entry ''a.txt'' ''Z'') ''/srv'' world_deployed) = None
   \<and> files (snd (extractDiff env_plain (file_entry ''a.txt'' ''Z'') ''/srv'' world_deployed)) ''/srv/a.txt''
        = Some ''Z''"
proof -
  have j: "Join [''/srv'', f_Name (file_entry ''a.txt'' c)] = ''/srv/a.txt''" for c
    by (simp add: file_entry_def Join_def Clean_def)
  have h: "f_Open (file_entry ''a.txt'' c) = None" "f_Read (file_entry ''a.txt'' c) = Inr c"
          "f_Close (file_entry ''a.txt'' c) = None"
          "HasPrefix (Join [''/srv'', f_Name (file_entry ''a.txt'' c)]) (Clean ''/srv'' @ ''/'')"
          "open_fault env_plain (Join [''/srv'', f_Name (file_entry ''a.txt'' c)]) = None"
          "read_fault env_plain (Join [''/srv'', f_Name (file_entry ''a.txt'' c)]) = None" for c
    by (simp_all add: file_entry_def Join_def Clean_def HasPrefix_def env_plain_def)
  have same: "\<exists>old. files world_deployed ''/srv/a.txt'' = Some old
                \<and> murmur3_Sum128 env_plain old = murmur3_Sum128 env_plain ''X''"
    by (simp add: world_deployed_def world_empty_def)
  have missing: "files world_empty ''/srv/a.txt'' = None"
    by (simp add: world_empty_def)
  have differs: "\<not> (\<exists>old. files world_deployed ''/srv/a.txt'' = Some old
                \<and> murmur3_Sum128 env_plain old = murmur3_Sum128 env_plain ''Z'')"
    by (simp add: world_deployed_def world_empty_def env_plain_def)
  have ok: "fst (extractDiff env_plain (file_entry ''a.txt'' ''X'') ''/srv'' world_empty) = None"
           "fst (extractDiff env_plain (file_entry ''a.txt'' ''Z'') ''/srv'' world_deployed) = None"
           "logs world_empty = []"
    by code_simp+
  have n: "f_Name (file_entry ''a.txt'' c) = ''a.txt''" for c
    by (simp add: file_entry_def)
  have j': "Join [''/srv'', ''a.txt''] = ''/srv/a.txt''"
    by (simp add: Join_def Clean_def)
  note t1 = written_iff_differs [OF h, of "''X''" world_deployed, unfolded n j']
  note t2 = written_iff_differs [OF h, of "''X''" world_empty, unfolded n j']
  note t3 = written_iff_differs [OF h, of "''Z''" world_deployed, unfolded n j']
  have c1: "extractDiff env_plain (file_entry ''a.txt'' ''X'') ''/srv'' world_deployed
              = (None, world_deployed)"
    using t1 same by blast
  have c2: "hasDiff env_plain ''X'' ''/srv/a.txt'' world_empty = Inr True"
    using t2 missing by blast
  have c3: "logs (snd (extractDiff env_plain (file_entry ''a.txt'' ''X'') ''/srv'' world_empty))
              = [Info_Extracting ''a.txt'']"
           "files (snd (extractDiff env_plain (file_entry ''a.txt'' ''X'') ''/srv'' world_empty))
              ''/srv/a.txt'' = Some ''X''"
    using t2 missing ok by simp_all
  have c4: "files (snd (extractDiff env_plain (file_entry ''a.txt'' ''Z'') ''/srv'' world_deployed))
              ''/srv/a.txt'' = Some ''Z''"
    using t3 differs ok by blast
  show ?thesis using c1 c2 c3 c4 ok by simp
qed

subsection \<open>C6: the second run\<close>

text \<open>
  Claim C6, as the program has it. Let the archive open to the same entries in both runs,
  let the entries that are extracted have pairwise distinct destination paths, let the
  first run log no extraction error, and let the destination files be free of open and
  read faults. Then the second run returns \<^verbatim>\<open>nil\<close> and leaves the world exactly as the first
  run left it: no file, no directory, no temporary file and no log line is written, which
  is the outcome Skipped for every entry.
\<close>

theorem second_run_writes_nothing:
  assumes "zip_OpenReader env w filename = Inr fs"
      and "zip_OpenReader env (snd (unzipDiff env filename dest excludes w)) filename = Inr fs"
      and "distinct (map (\<lambda>f. Join [dest, f_Name f]) (selected env excludes fs))"
      and "extract_errors (snd (unzipDiff env filename dest excludes w)) = extract_errors w"
      and "\<forall>f \<in> set (selected env excludes fs).
             open_fault env (Join [dest, f_Name f]) = None
             \<and> read_fault env (Join [dest, f_Name f]) = None"
  shows "unzipDiff env filename dest excludes (snd (unzipDiff env filename dest excludes w))
           = (None, snd (unzipDiff env filename dest excludes w))"
proof -
  have s: "snd (unzipDiff env filename dest excludes w) = unzipDiff_loop env fs dest excludes w"
    using assms(1) by (simp add: unzipDiff_def)
  have "unzipDiff_loop env fs dest excludes (unzipDiff_loop env fs dest excludes w)
          = unzipDiff_loop env fs dest excludes w"
    using second_run_fixed [OF assms(3) _ assms(5)] assms(4) s by simp
  with assms(2) s show ?thesis by (simp add: unzipDiff_def)
qed

theorem second_run_writes_nothing_witness:
  "unzipDiff (env_zip scenario_archive) ''artifacts/o.r.dist.zip'' ''/srv'' []
     (snd (unzipDiff (env_zip scenario_archive) ''artifacts/o.r.dist.zip'' ''/srv'' [] world_zip))
   = (None, snd (unzipDiff (env_zip scenario_archive) ''artifacts/o.r.dist.zip'' ''/srv'' [] world_zip))
   \<and> files (snd (unzipDiff (env_zip scenario_archive) ''artifacts/o.r.dist.zip'' ''/srv'' [] world_zip))
        ''/srv/a.txt'' = Some ''X''
   \<and> files (snd (unzipDiff (env_zip scenario_archive) ''artifacts/o.r.dist.zip'' ''/srv'' [] world_zip))
        ''/srv/b/c.txt'' = Some ''Y''"
proof -
  let ?env = "env_zip scenario_archive"
  let ?w1 = "snd (unzipDiff ?env ''artifacts/o.r.dist.zip'' ''/srv'' [] world_zip)"
  have o1: "zip_OpenReader ?env world_zip ''artifacts/o.r.dist.zip'' = Inr scenario_archive"
    by code_simp
  have o2: "zip_OpenReader ?env ?w1 ''artifacts/o.r.dist.zip'' = Inr scenario_archive"
    by code_simp
  have d: "distinct (map (\<lambda>f. Join [''/srv'', f_Name f]) (selected ?env [] scenario_archive))"
    by code_simp
  have e: "extract_errors ?w1 = extract_errors world_zip"
    by code_simp
  have r: "\<forall>f \<in> set (selected ?env [] scenario_archive).
             open_fault ?env (Join [''/srv'', f_Name f]) = None
             \<and> read_fault ?env (Join [''/srv'', f_Name f]) = None"
    by (simp add: env_zip_def env_plain_def)
  have a: "files ?w1 ''/srv/a.txt'' = Some ''X''" by code_simp
  have b: "files ?w1 ''/srv/b/c.txt'' = Some ''Y''" by code_simp
  show ?thesis
    using second_run_writes_nothing [OF o1 o2 d e r] a b by simp
qed

text \<open>
  The claim as stated, for every archive and destination, fails. A zip archive may hold
  two entries of the same name: with contents \<^verbatim>\<open>X\<close> and \<^verbatim>\<open>Y\<close> for \<^verbatim>\<open>a.txt\<close> the first run writes
  both, without an error, and the second run finds \<^verbatim>\<open>Y\<close> against \<^verbatim>\<open>X\<close> and then \<^verbatim>\<open>X\<close> against
  \<^verbatim>\<open>Y\<close>: it writes both again. And an entry that failed in the first run is not Skipped in
  the second: with the destination on another volume than \<^verbatim>\<open>tmp\<close> the rename fails in both
  runs, and the second run writes a second temporary file.
\<close>

theorem second_run_writes_counterexample:
  "fst (unzipDiff (env_zip archive_duplicate) ''artifacts/o.r.dist.zip'' ''/srv'' [] world_zip) = None
   \<and> extract_errors (snd (unzipDiff (env_zip archive_duplicate) ''artifacts/o.r.dist.zip'' ''/srv'' [] world_zip))
       = 0
   \<and> logs (snd (unzipDiff (env_zip archive_duplicate) ''artifacts/o.r.dist.zip'' ''/srv'' [] world_zip))
       = [Info_Extracting ''a.txt'', Info_Extracting ''a.txt'']
   \<and> logs (snd (unzipDiff (env_zip archive_duplicate) ''artifacts/o.r.dist.zip'' ''/srv'' []
              (snd (unzipDiff (env_zip archive_duplicate) ''artifacts/o.r.dist.zip'' ''/srv'' [] world_zip))))
       = [Info_Extracting ''a.txt'', Info_Extracting ''a.txt'',
          Info_Extracting ''a.txt'', Info_Extracting ''a.txt'']
   \<and> extract_errors (snd (unzipDiff (env_zip_two_volumes [file_entry ''a.txt'' ''X''])
                          ''artifacts/o.r.dist.zip'' ''/srv'' [] world_zip)) = 1
   \<and> files (snd (unzipDiff (env_zip_two_volumes [file_entry ''a.txt'' ''X''])
                          ''artifacts/o.r.dist.zip'' ''/srv'' [] world_zip)) ''tmp/extract-77'' = None
   \<and> files (snd (unzipDiff (env_zip_two_volumes [file_entry ''a.txt'' ''X''])
                          ''artifacts/o.r.dist.zip'' ''/srv'' []
                 (snd (unzipDiff (env_zip_two_volumes [file_entry ''a.txt'' ''X''])
                          ''artifacts/o.r.dist.zip'' ''/srv'' [] world_zip)))) ''tmp/extract-77''
       = Some ''X''"
  by code_simp

subsection \<open>C7: a failing entry\<close>

text \<open>
  Claim C7. When the extraction of one entry fails, \<open>unzipDiff\<close> still returns \<^verbatim>\<open>nil\<close>; the
  failure adds one line to the log, naming that entry; the entries before it have been
  processed and the entries after it are processed from the state the failed entry left;
  and the failed entry has changed no file but, at most, a temporary file of its own.
\<close>

theorem entry_failure_does_not_abort:
  assumes "zip_OpenReader env w filename = Inr (fs1 @ f # fs2)"
      and "\<not> f_IsDir f" and "\<not> pathMatches env (f_Name f) excludes"
      and "extractDiff env f dest (unzipDiff_loop env fs1 dest excludes w) = (Some err, w')"
  shows "unzipDiff env filename dest excludes w =
           (None, unzipDiff_loop env fs2 dest excludes
                    (log_Print (Error_Extract (f_Name f) err) w'))
       \<and> (\<forall>q. \<not> HasPrefix q (tempDir @ ''/extract-'') \<longrightarrow>
              files w' q = files (unzipDiff_loop env fs1 dest excludes w) q)"
proof
  show "unzipDiff env filename dest excludes w =
           (None, unzipDiff_loop env fs2 dest excludes
                    (log_Print (Error_Extract (f_Name f) err) w'))"
    using assms by (simp add: unzipDiff_def unzipDiff_loop_append worker_def)
  show "\<forall>q. \<not> HasPrefix q (tempDir @ ''/extract-'') \<longrightarrow>
              files w' q = files (unzipDiff_loop env fs1 dest excludes w) q"
    using extractDiff_failure_keeps [of _ env f dest "unzipDiff_loop env fs1 dest excludes w"]
          assms(4)
    by simp
qed

theorem entry_failure_does_not_abort_witness:
  "fst (unzipDiff (env_zip archive_with_broken) ''artifacts/o.r.dist.zip'' ''/srv'' [] world_zip) = None
   \<and> files (snd (unzipDiff (env_zip archive_with_broken) ''artifacts/o.r.dist.zip'' ''/srv'' [] world_zip))
        ''/srv/a.txt'' = Some ''X''
   \<and> files (snd (unzipDiff (env_zip archive_with_broken) ''artifacts/o.r.dist.zip'' ''/srv'' [] world_zip))
        ''/srv/c.txt'' = Some ''Z''
   \<and> filter is_Error_Extract
        (logs (snd (unzipDiff (env_zip archive_with_broken) ''artifacts/o.r.dist.zip'' ''/srv'' [] world_zip)))
      = [Error_Extract ''bad'' (IOError ''checksum'')]"
proof -
  let ?env = "env_zip archive_with_broken"
  let ?w1 = "unzipDiff_loop ?env [file_entry ''a.txt'' ''X''] ''/srv'' [] world_zip"
  let ?end = "unzipDiff_loop ?env [file_entry ''c.txt'' ''Z''] ''/srv'' []
                (log_Print (Error_Extract (f_Name (broken_entry ''bad'')) (IOError ''checksum'')) ?w1)"
  have op: "zip_OpenReader ?env world_zip ''artifacts/o.r.dist.zip''
              = Inr ([file_entry ''a.txt'' ''X''] @ broken_entry ''bad'' # [file_entry ''c.txt'' ''Z''])"
    by (simp add: zip_OpenReader_def os_Open_def read_all_def env_zip_def env_plain_def
          world_zip_def world_empty_def archive_with_broken_def)
  have nd: "\<not> f_IsDir (broken_entry ''bad'')"
    by (simp add: broken_entry_def)
  have nm: "\<not> pathMatches ?env (f_Name (broken_entry ''bad'')) []"
    by simp
  have fails: "extractDiff ?env (broken_entry ''bad'') ''/srv'' ?w1 = (Some (IOError ''checksum''), ?w1)"
    by (simp add: extractDiff_def broken_entry_def)
  have a: "files ?end ''/srv/a.txt'' = Some ''X''" by code_simp
  have c: "files ?end ''/srv/c.txt'' = Some ''Z''" by code_simp
  have l: "filter is_Error_Extract (logs ?end) = [Error_Extract ''bad'' (IOError ''checksum'')]"
    by code_simp
  show ?thesis
    using entry_failure_does_not_abort [OF op nd nm fails] a c l by simp
qed

subsection \<open>C8: malformed patterns\<close>

text \<open>
  Claim C8, at an input where the program departs from it. The pattern made of the letter \<^verbatim>\<open>a\<close>
  and a backslash is malformed (a trailing backslash), but between the anchors its
  backslash escapes the \<^verbatim>\<open>$\<close>: the expression compiles, and the pattern excludes every
  path that begins with \<^verbatim>\<open>a$\<close>.
\<close>

theorem trailing_backslash_pattern_matches:
  "Compile (''a'' @ [CHR 0x5C]) = Inl (RegexpError ''trailing backslash at end of expression'')
   \<and> Compile (''^'' @ (''a'' @ [CHR 0x5C]) @ ''$'')
       = Inr (Concat BeginText (Concat (Literal CHR ''a'') (Literal CHR ''$'')))
   \<and> pathMatches env_plain ''a$'' [''a'' @ [CHR 0x5C]]
   \<and> pathMatches env_plain ''a$x'' [''a'' @ [CHR 0x5C]]"
  by code_simp

subsection \<open>C9: the entries that are extracted\<close>

text \<open>
  Claim C9. \<open>unzipDiff\<close> returns an error only for an archive that cannot be opened. Otherwise
  it returns \<^verbatim>\<open>nil\<close> and the state reached by running, for each entry that is no directory and
  that no exclusion pattern matches, once and in archive order, \<open>extractDiff\<close> and the logging
  of its error; this state is the one after the last of these workers. Of this state:
  a path that is no temporary file of the extractor and no destination of such an entry
  holds what it held before, so the destinations of directory entries and of excluded
  entries are left alone; every line added to the log names such an entry, so a directory
  or an excluded entry is neither extracted nor reported, even one that cannot be read;
  and when the destinations of these entries are pairwise distinct, each of them either
  has its error in the log or could be read, lies under the destination root and has at
  its destination a file with the digest of its content.
\<close>

theorem unzipDiff_extracts_selected:
  "unzipDiff env filename dest excludes w =
     (case zip_OpenReader env w filename of
        Inl err \<Rightarrow> (Some err, w)
      | Inr r \<Rightarrow>
          (None,
           fold (\<lambda>f v. case extractDiff env f dest v of
                         (Some err, v') \<Rightarrow> log_Print (Error_Extract (f_Name f) err) v'
                       | (None, v') \<Rightarrow> v')
                (selected env excludes r) w))
   \<and> (\<forall>r. zip_OpenReader env w filename = Inr r \<longrightarrow>
          (\<forall>q. \<not> HasPrefix q (tempDir @ ''/extract-'')
                \<and> q \<notin> set (map (\<lambda>f. Join [dest, f_Name f]) (selected env excludes r))
              \<longrightarrow> files (snd (unzipDiff env filename dest excludes w)) q = files w q)
        \<and> (\<exists>ls. logs (snd (unzipDiff env filename dest excludes w)) = logs w @ ls
              \<and> (\<forall>l \<in> set ls. \<exists>f \<in> set (selected env excludes r).
                     l = Info_Extracting (f_Name f) \<or> (\<exists>err. l = Error_Extract (f_Name f) err))
              \<and> (distinct (map (\<lambda>f. Join [dest, f_Name f]) (selected env excludes r)) \<longrightarrow>
                   (\<forall>f \<in> set (selected env excludes r).
                      (\<exists>err. Error_Extract (f_Name f) err \<in> set ls)
                      \<or> (readable f \<and> HasPrefix (Join [dest, f_Name f]) (Clean dest @ ''/'')
                         \<and> (\<exists>c. files (snd (unzipDiff env filename dest excludes w))
                                       (Join [dest, f_Name f]) = Some c
                                \<and> murmur3_Sum128 env c = murmur3_Sum128 env (content f)))))))"
proof (intro conjI allI impI)
  have wk: "(\<lambda>f v. case extractDiff env f dest v of
                         (Some err, v') \<Rightarrow> log_Print (Error_Extract (f_Name f) err) v'
                       | (None, v') \<Rightarrow> v') = (\<lambda>f. worker env f dest)"
    by (intro ext) (simp add: worker_def split: prod.splits option.splits)
  show "unzipDiff env filename dest excludes w =
     (case zip_OpenReader env w filename of
        Inl err \<Rightarrow> (Some err, w)
      | Inr r \<Rightarrow>
          (None,
           fold (\<lambda>f v. case extractDiff env f dest v of
                         (Some err, v') \<Rightarrow> log_Print (Error_Extract (f_Name f) err) v'
                       | (None, v') \<Rightarrow> v')
                (selected env excludes r) w))"
    unfolding wk by (simp add: unzipDiff_def unzipDiff_loop_fold split: sum.splits)
next
  fix r q
  assume op: "zip_OpenReader env w filename = Inr r"
     and q: "\<not> HasPrefix q (tempDir @ ''/extract-'')
             \<and> q \<notin> set (map (\<lambda>f. Join [dest, f_Name f]) (selected env excludes r))"
  have "snd (unzipDiff env filename dest excludes w)
          = fold (\<lambda>f. worker env f dest) (selected env excludes r) w"
    using op by (simp add: unzipDiff_def unzipDiff_loop_fold)
  then show "files (snd (unzipDiff env filename dest excludes w)) q = files w q"
    using fold_worker_elsewhere [of q dest "selected env excludes r" env w] q by simp
next
  fix r
  assume op: "zip_OpenReader env w filename = Inr r"
  have "snd (unzipDiff env filename dest excludes w)
          = fold (\<lambda>f. worker env f dest) (selected env excludes r) w"
    using op by (simp add: unzipDiff_def unzipDiff_loop_fold)
  then show "\<exists>ls. logs (snd (unzipDiff env filename dest excludes w)) = logs w @ ls
              \<and> (\<forall>l \<in> set ls. \<exists>f \<in> set (selected env excludes r).
                     l = Info_Extracting (f_Name f) \<or> (\<exists>err. l = Error_Extract (f_Name f) err))
              \<and> (distinct (map (\<lambda>f. Join [dest, f_Name f]) (selected env excludes r)) \<longrightarrow>
                   (\<forall>f \<in> set (selected env excludes r).
                      (\<exists>err. Error_Extract (f_Name f) err \<in> set ls)
                      \<or> (readable f \<and> HasPrefix (Join [dest, f_Name f]) (Clean dest @ ''/'')
                         \<and> (\<exists>c. files (snd (unzipDiff env filename dest excludes w))
                                       (Join [dest, f_Name f]) = Some c
                                \<and> murmur3_Sum128 env c = murmur3_Sum128 env (content f)))))"
    using fold_worker_outcome [of env dest "selected env excludes r" w] by simp
qed

theorem unzipDiff_extracts_selected_witness:
  "fst (unzipDiff (env_zip archive_mixed) ''artifacts/o.r.dist.zip'' ''/srv'' [''b/.*''] world_zip_old) = None
   \<and> files (snd (unzipDiff (env_zip archive_mixed) ''artifacts/o.r.dist.zip'' ''/srv'' [''b/.*''] world_zip_old))
        ''/srv/a.txt'' = Some ''X''
   \<and> files (snd (unzipDiff (env_zip archive_mixed) ''artifacts/o.r.dist.zip'' ''/srv'' [''b/.*''] world_zip_old))
        ''/srv/d/e.txt'' = Some ''Z''
   \<and> files (snd (unzipDiff (env_zip archive_mixed) ''artifacts/o.r.dist.zip'' ''/srv'' [''b/.*''] world_zip_old))
        ''/srv/b/c.txt'' = Some ''old''
   \<and> files (snd (unzipDiff (env_zip archive_mixed) ''artifacts/o.r.dist.zip'' ''/srv'' [''b/.*''] world_zip_old))
        ''/srv/b/bad'' = None
   \<and> logs (snd (unzipDiff (env_zip archive_mixed) ''artifacts/o.r.dist.zip'' ''/srv'' [''b/.*''] world_zip_old))
        = [Info_Extracting ''a.txt'', Info_Extracting ''d/e.txt'']"
proof -
  let ?E = "env_zip archive_mixed"
  let ?u = "unzipDiff ?E ''artifacts/o.r.dist.zip'' ''/srv'' [''b/.*''] world_zip_old"
  let ?sel = "selected ?E [''b/.*''] archive_mixed"
  have op: "zip_OpenReader ?E world_zip_old ''artifacts/o.r.dist.zip'' = Inr archive_mixed"
    by (simp add: zip_OpenReader_def os_Open_def read_all_def env_zip_def env_plain_def
          world_zip_old_def world_empty_def)
  have sel: "?sel = [file_entry ''a.txt'' ''X'', file_entry ''d/e.txt'' ''Z'']"
    by code_simp
  have j: "Join [''/srv'', ''a.txt''] = ''/srv/a.txt''" "Join [''/srv'', ''d/e.txt''] = ''/srv/d/e.txt''"
    by code_simp+
  have np: "\<not> HasPrefix ''/srv/b/c.txt'' (tempDir @ ''/extract-'')"
           "\<not> HasPrefix ''/srv/b/bad'' (tempDir @ ''/extract-'')"
    by code_simp+
  have lg: "logs (snd ?u) = [Info_Extracting ''a.txt'', Info_Extracting ''d/e.txt'']"
    by code_simp
  have w0: "logs world_zip_old = []" "files world_zip_old ''/srv/b/c.txt'' = Some ''old''"
           "files world_zip_old ''/srv/b/bad'' = None"
    by (simp_all add: world_zip_old_def world_empty_def)
  have dg: "murmur3_Sum128 ?E = (\<lambda>b. b)"
    by (simp add: env_zip_def env_plain_def)
  have ct: "content (file_entry ''a.txt'' ''X'') = ''X''" "content (file_entry ''d/e.txt'' ''Z'') = ''Z''"
           "f_Name (file_entry ''a.txt'' ''X'') = ''a.txt''" "f_Name (file_entry ''d/e.txt'' ''Z'') = ''d/e.txt''"
    by (simp_all add: content_def file_entry_def)
  note T = unzipDiff_extracts_selected
             [of ?E "''artifacts/o.r.dist.zip''" "''/srv''" "[''b/.*'']" world_zip_old]
  from T op have r: "fst ?u = None" by simp
  from T op have keep:
    "\<And>q. \<not> HasPrefix q (tempDir @ ''/extract-'') \<Longrightarrow>
          q \<notin> set (map (\<lambda>f. Join [''/srv'', f_Name f]) ?sel) \<Longrightarrow>
          files (snd ?u) q = files world_zip_old q"
    by blast
  have k1: "files (snd ?u) ''/srv/b/c.txt'' = Some ''old''"
    using keep [OF np(1)] by (simp add: sel j ct w0)
  have k2: "files (snd ?u) ''/srv/b/bad'' = None"
    using keep [OF np(2)] by (simp add: sel j ct w0)
  from T op obtain ls where
    l1: "logs (snd ?u) = logs world_zip_old @ ls"
    and l3: "distinct (map (\<lambda>f. Join [''/srv'', f_Name f]) ?sel) \<longrightarrow>
               (\<forall>f \<in> set ?sel.
                  (\<exists>err. Error_Extract (f_Name f) err \<in> set ls)
                  \<or> (readable f \<and> HasPrefix (Join [''/srv'', f_Name f]) (Clean ''/srv'' @ ''/'')
                     \<and> (\<exists>c. files (snd ?u) (Join [''/srv'', f_Name f]) = Some c
                            \<and> murmur3_Sum128 ?E c = murmur3_Sum128 ?E (content f))))"
    by blast
  from l1 lg w0 have ls: "ls = [Info_Extracting ''a.txt'', Info_Extracting ''d/e.txt'']" by simp
  from l3 have d1: "files (snd ?u) ''/srv/a.txt'' = Some ''X''"
    and d2: "files (snd ?u) ''/srv/d/e.txt'' = Some ''Z''"
    by (simp_all add: sel j ct ls dg)
  from r d1 d2 k1 k2 lg show ?thesis by simp
qed

subsection \<open>C10: failures that end the process\<close>

text \<open>
  Claim C10. A ledger that cannot be saved ends the process: \<open>markUpdate\<close> ends in
  \<^verbatim>\<open>log.Fatal\<close> with the error of \<open>saveJSON\<close>; \<open>runJob\<close> then ends there, before the download,
  and \<open>runJobs\<close> runs no further job. At start-up, \<open>init\<close> ends the process when the secrets,
  the jobs or the ledger file cannot be loaded, and when a missing ledger file cannot be
  written.
\<close>

theorem persistence_failure_is_fatal:
  "(fst (saveJSON env logFile ((lastUpdate w)(key \<mapsto> t))
           (w\<lparr>lastUpdate := (lastUpdate w)(key \<mapsto> t)\<rparr>)) = Some err
      \<longrightarrow> (\<exists>w'. markUpdate env key t w = Exited w' \<and> last (logs w') = Fatal err))
   \<and> (getLatestArtifact env j w = Inr a \<and> CreatedAt a \<noteq> ledger_at w (job_key j)
        \<and> markUpdate env (job_key j) (CreatedAt a)
             (log_Print (Info_RunningJob (job_key j)) w) = Exited w1
      \<longrightarrow> runJob env j w = Exited w1 \<and> runJobs_loop env (j # js) w = Exited w1)
   \<and> (loadJSON env w secretFile (decode_secrets env) = Inl err
        \<or> (\<exists>ss. loadJSON env w secretFile (decode_secrets env) = Inr ss)
            \<and> loadJSON env w jobFile (decode_jobs env) = Inl err
        \<or> (\<exists>ss. loadJSON env w secretFile (decode_secrets env) = Inr ss)
            \<and> (\<exists>js'. loadJSON env w jobFile (decode_jobs env) = Inr js')
            \<and> files w logFile \<noteq> None
            \<and> loadJSON env w logFile (decode_ledger env) = Inl err
        \<or> (\<exists>ss. loadJSON env w secretFile (decode_secrets env) = Inr ss)
            \<and> (\<exists>js'. loadJSON env w jobFile (decode_jobs env) = Inr js')
            \<and> files w logFile = None
            \<and> (fst (os_WriteFile env logFile ''{}'' w) = Some err
                 \<or> fst (os_WriteFile env logFile ''{}'' w) = None
                    \<and> loadJSON env (snd (os_WriteFile env logFile ''{}'' w)) logFile
                          (decode_ledger env) = Inl err)
      \<longrightarrow> (\<exists>w'. init env w = Exited w' \<and> last (logs w') = Fatal err))"
proof (intro conjI impI)
  assume "fst (saveJSON env logFile ((lastUpdate w)(key \<mapsto> t))
           (w\<lparr>lastUpdate := (lastUpdate w)(key \<mapsto> t)\<rparr>)) = Some err"
  then show "\<exists>w'. markUpdate env key t w = Exited w' \<and> last (logs w') = Fatal err"
    by (rule markUpdate_fatal)
next
  assume h: "getLatestArtifact env j w = Inr a \<and> CreatedAt a \<noteq> ledger_at w (job_key j)
        \<and> markUpdate env (job_key j) (CreatedAt a)
             (log_Print (Info_RunningJob (job_key j)) w) = Exited w1"
  then show "runJob env j w = Exited w1" using runJob_fatal by blast
  from h show "runJobs_loop env (j # js) w = Exited w1" using runJob_fatal by blast
next
  assume "loadJSON env w secretFile (decode_secrets env) = Inl err
        \<or> (\<exists>ss. loadJSON env w secretFile (decode_secrets env) = Inr ss)
            \<and> loadJSON env w jobFile (decode_jobs env) = Inl err
        \<or> (\<exists>ss. loadJSON env w secretFile (decode_secrets env) = Inr ss)
            \<and> (\<exists>js'. loadJSON env w jobFile (decode_jobs env) = Inr js')
            \<and> files w logFile \<noteq> None
            \<and> loadJSON env w logFile (decode_ledger env) = Inl err
        \<or> (\<exists>ss. loadJSON env w secretFile (decode_secrets env) = Inr ss)
            \<and> (\<exists>js'. loadJSON env w jobFile (decode_jobs env) = Inr js')
            \<and> files w logFile = None
            \<and> (fst (os_WriteFile env logFile ''{}'' w) = Some err
                 \<or> fst (os_WriteFile env logFile ''{}'' w) = None
                    \<and> loadJSON env (snd (os_WriteFile env logFile ''{}'' w)) logFile
                          (decode_ledger env) = Inl err)"
  then show "\<exists>w'. init env w = Exited w' \<and> last (logs w') = Fatal err"
    using init_fatal_secrets init_fatal_jobs init_fatal_ledger init_fatal_new_ledger by blast
qed

theorem persistence_failure_is_fatal_witness:
  "(\<exists>w'. markUpdate env_encode_fails ''o.r.dist'' 5 world_empty = Exited w'
          \<and> last (logs w') = Fatal (IOError ''encode''))
   \<and> (\<exists>w1. runJob (env_listing env_encode_fails 5) sample_job world_empty = Exited w1
          \<and> runJobs_loop (env_listing env_encode_fails 5) [sample_job, sample_job] world_empty = Exited w1)
   \<and> (\<exists>w'. init env_plain world_empty = Exited w' \<and> last (logs w') = Fatal NotExist)
   \<and> (\<exists>w'. init env_decode_fails world_ledger = Exited w'
          \<and> last (logs w') = Fatal (IOError ''unexpected end of JSON input''))"
proof -
  have s1: "fst (saveJSON env_encode_fails logFile ((lastUpdate world_empty)(''o.r.dist'' \<mapsto> 5))
                  (world_empty\<lparr>lastUpdate := (lastUpdate world_empty)(''o.r.dist'' \<mapsto> 5)\<rparr>))
              = Some (IOError ''encode'')"
    by code_simp
  have c1: "\<exists>w'. markUpdate env_encode_fails ''o.r.dist'' 5 world_empty = Exited w'
          \<and> last (logs w') = Fatal (IOError ''encode'')"
    using persistence_failure_is_fatal [of env_encode_fails world_empty "''o.r.dist''" 5 "IOError ''encode''"] s1
    by blast
  let ?env = "env_listing env_encode_fails 5"
  let ?w0 = "log_Print (Info_RunningJob (job_key sample_job)) world_empty"
  have g: "getLatestArtifact ?env sample_job world_empty = Inr (sample_artifact 5)"
    by code_simp
  have n: "CreatedAt (sample_artifact 5) \<noteq> ledger_at world_empty (job_key sample_job)"
    by code_simp
  have s2: "fst (saveJSON ?env logFile ((lastUpdate ?w0)(job_key sample_job \<mapsto> CreatedAt (sample_artifact 5)))
                  (?w0\<lparr>lastUpdate := (lastUpdate ?w0)(job_key sample_job \<mapsto> CreatedAt (sample_artifact 5))\<rparr>))
              = Some (IOError ''encode'')"
    by code_simp
  obtain w1 where m: "markUpdate ?env (job_key sample_job) (CreatedAt (sample_artifact 5)) ?w0 = Exited w1"
    using markUpdate_fatal [OF s2] by blast
  have c2: "\<exists>w1. runJob ?env sample_job world_empty = Exited w1
          \<and> runJobs_loop ?env [sample_job, sample_job] world_empty = Exited w1"
    using persistence_failure_is_fatal
            [of ?env world_empty _ _ _ sample_job "sample_artifact 5" w1 "[sample_job]"] g n m
    by blast
  have l3: "loadJSON env_plain world_empty secretFile (decode_secrets env_plain) = Inl NotExist"
    by code_simp
  have c3: "\<exists>w'. init env_plain world_empty = Exited w' \<and> last (logs w') = Fatal NotExist"
    using persistence_failure_is_fatal [of env_plain world_empty _ _ NotExist] l3 by blast
  have l4: "loadJSON env_decode_fails world_ledger secretFile (decode_secrets env_decode_fails) = Inr []"
           "loadJSON env_decode_fails world_ledger jobFile (decode_jobs env_decode_fails) = Inr []"
           "files world_ledger logFile \<noteq> None"
           "loadJSON env_decode_fails world_ledger logFile (decode_ledger env_decode_fails)
              = Inl (IOError ''unexpected end of JSON input'')"
    by (simp_all add: loadJSON_def os_Open_def read_all_def env_decode_fails_def env_plain_def
          world_ledger_def world_empty_def secretFile_def jobFile_def logFile_def)
  have c4: "\<exists>w'. init env_decode_fails world_ledger = Exited w'
          \<and> last (logs w') = Fatal (IOError ''unexpected end of JSON input'')"
    using persistence_failure_is_fatal
            [of env_decode_fails world_ledger _ _ "IOError ''unexpected end of JSON input''"] l4
    by blast
  show ?thesis using c1 c2 c3 c4 by blast
qed

end
